theory Spec2Isabelle
  imports Main "HOL-Library.Word" "HOL-Library.Sublist"
begin

section \<open>Errors\<close>

text \<open>
  Every error return and every panic of the modelled Go code is a value of this type.
  \<open>ErrNotExist\<close> is the file-not-found error of package os (the one \<open>os.IsNotExist\<close>
  recognises), \<open>ErrIO\<close> any other failure of a system call, \<open>EOF\<close> is \<open>io.EOF\<close>,
  \<open>ErrSyntax\<close> and \<open>ErrRange\<close> are the two errors of \<open>strconv.ParseUint\<close>,
  \<open>ErrSeqNotFound\<close> is the package variable of msg_storer, \<open>ErrUpload\<close> a failure of the
  object-store writer, \<open>ErrURL\<close> a failure of \<open>url.Parse\<close>, and \<open>Panic\<close> a run-time panic
  (index out of range, negative shift count).
\<close>

datatype error =
    ErrNotExist | ErrIO | EOF | ErrSyntax | ErrRange | ErrSeqNotFound
  | ErrUpload | ErrURL | Panic

section \<open>Strings: the record codec\<close>

abbreviation NL :: char where "NL \<equiv> CHR 0x0A"
abbreviation CR :: char where "CR \<equiv> CHR 0x0D"
abbreviation COLON :: char where "COLON \<equiv> CHR '':''"
abbreviation SLASH :: char where "SLASH \<equiv> CHR ''/''"

text \<open>\<open>fmt.Sprintf("%d", n)\<close> for an unsigned integer: its decimal digits.\<close>

definition digit_char :: "nat \<Rightarrow> char" where
  "digit_char d = ''0123456789'' ! d"

function itoa :: "nat \<Rightarrow> string" where
  "itoa n = (if n < 10 then [digit_char n] else itoa (n div 10) @ [digit_char (n mod 10)])"
  by pat_completeness auto
termination
  by (relation "measure id") auto

declare itoa.simps [simp del]

text \<open>
  \<open>strconv.ParseUint(s, 10, 64)\<close>: the empty string and any character that is not a
  decimal digit give \<open>ErrSyntax\<close> (no sign, no underscore in base 10), a value of
  \<open>2^64\<close> or more gives \<open>ErrRange\<close>; the characters are read left to right and the first
  failure decides.
\<close>

definition digit_val :: "char \<Rightarrow> nat option" where
  "digit_val c =
     (let n = (of_char c :: nat) in if 48 \<le> n \<and> n \<le> 57 then Some (n - 48) else None)"

fun parse_digits :: "nat \<Rightarrow> string \<Rightarrow> error + nat" where
  "parse_digits acc [] = Inr acc"
| "parse_digits acc (c # cs) =
     (case digit_val c of
        None \<Rightarrow> Inl ErrSyntax
      | Some d \<Rightarrow>
          if 2 ^ 64 \<le> acc * 10 + d then Inl ErrRange
          else parse_digits (acc * 10 + d) cs)"

definition ParseUint :: "string \<Rightarrow> error + 64 word" where
  "ParseUint s =
     (if s = [] then Inl ErrSyntax
      else case parse_digits 0 s of Inl e \<Rightarrow> Inl e | Inr n \<Rightarrow> Inr (word_of_nat n))"

text \<open>
  \<open>strings.SplitN(s, ":", 2)\<close>: the text before the first colon and the text after it,
  or the whole string alone when it has no colon.
\<close>

definition SplitN2 :: "string \<Rightarrow> string list" where
  "SplitN2 s =
     (if COLON \<in> set s
      then [takeWhile (\<lambda>c. c \<noteq> COLON) s, tl (dropWhile (\<lambda>c. c \<noteq> COLON) s)]
      else [s])"

text \<open>
  An index expression \<open>xs[i]\<close> of Go panics when \<open>i\<close> is out of range.
\<close>

definition index :: "'a list \<Rightarrow> nat \<Rightarrow> error + 'a" where
  "index xs i = (if i < length xs then Inr (xs ! i) else Inl Panic)"

text \<open>
  \<open>reader.ReadString('\n')\<close> on a fresh \<open>bufio.Reader\<close>: the text up to and including
  the first newline, or \<open>io.EOF\<close> when the input ends before a newline.
\<close>

definition ReadString :: "string \<Rightarrow> error + string" where
  "ReadString content =
     (if NL \<in> set content then Inr (takeWhile (\<lambda>c. c \<noteq> NL) content @ [NL]) else Inl EOF)"

text \<open>
  \<open>bufio.Scanner\<close> with its default split function \<open>ScanLines\<close>: the tokens are the
  lines without their newline, one trailing carriage return dropped; a last line
  without newline is delivered when it is not empty. The scanner's buffer holds at most
  \<open>MaxScanTokenSize\<close> bytes: at a line of that many bytes or more, \<open>Scan\<close> returns
  false and the loop over the lines ends there.
\<close>

definition MaxScanTokenSize :: nat where
  "MaxScanTokenSize = 64 * 1024"

definition dropCR :: "string \<Rightarrow> string" where
  "dropCR l = (if l \<noteq> [] \<and> last l = CR then butlast l else l)"

fun scan_from :: "string \<Rightarrow> string \<Rightarrow> string list" where
  "scan_from cur [] =
     (if cur = [] \<or> MaxScanTokenSize \<le> length cur then [] else [dropCR cur])"
| "scan_from cur (c # cs) =
     (if c = NL
      then (if MaxScanTokenSize \<le> length cur then [] else dropCR cur # scan_from [] cs)
      else scan_from (cur @ [c]) cs)"

definition ScanLines :: "string \<Rightarrow> string list" where
  "ScanLines content = scan_from [] content"

section \<open>Package path\<close>

fun split_on :: "char \<Rightarrow> string \<Rightarrow> string list" where
  "split_on d [] = [[]]"
| "split_on d (c # cs) =
     (if c = d then [] # split_on d cs
      else (case split_on d cs of [] \<Rightarrow> [[c]] | x # xs \<Rightarrow> (c # x) # xs))"

fun join_with :: "string \<Rightarrow> string list \<Rightarrow> string" where
  "join_with sep [] = []"
| "join_with sep [x] = x"
| "join_with sep (x # y # ys) = x @ sep @ join_with sep (y # ys)"

text \<open>
  \<open>path.Clean\<close>: empty and \<open>.\<close> elements vanish, a \<open>..\<close> removes the element before
  it (when that is not itself \<open>..\<close>), a \<open>..\<close> with nothing to remove is dropped in a
  rooted path and kept otherwise; the empty result is \<open>.\<close>.
\<close>

definition clean_step :: "bool \<Rightarrow> string list \<Rightarrow> string \<Rightarrow> string list" where
  "clean_step rooted out c =
     (if c = [] \<or> c = ''.'' then out
      else if c = ''..''
      then (if out \<noteq> [] \<and> last out \<noteq> ''..'' then butlast out
            else if rooted then out else out @ [''..''])
      else out @ [c])"

definition path_Clean :: "string \<Rightarrow> string" where
  "path_Clean p =
     (if p = [] then ''.''
      else let rooted = (hd p = SLASH);
               out = foldl (clean_step rooted) [] (split_on SLASH p);
               s = (if rooted then ''/'' else []) @ join_with ''/'' out
           in if s = [] then ''.'' else s)"

text \<open>
  \<open>path.Join\<close>: the elements joined by slashes, leading empty elements ignored, and
  the result cleaned; the empty string when every element is empty.
\<close>

definition join_step :: "string \<Rightarrow> string \<Rightarrow> string" where
  "join_step buf e =
     (if buf \<noteq> [] \<or> e \<noteq> [] then (if buf \<noteq> [] then buf @ ''/'' else buf) @ e else buf)"

definition path_Join :: "string list \<Rightarrow> string" where
  "path_Join elem = (if concat elem = [] then [] else path_Clean (foldl join_step [] elem))"

text \<open>\<open>path.Dir\<close>: everything up to the last slash, cleaned.\<close>

definition path_Dir :: "string \<Rightarrow> string" where
  "path_Dir p = path_Clean (rev (dropWhile (\<lambda>c. c \<noteq> SLASH) (rev p)))"

text \<open>
  \<open>strings.ReplaceAll(s, old, new)\<close>: the non-overlapping occurrences of \<open>old\<close>, found
  from the left, replaced by \<open>new\<close>. With an empty \<open>old\<close>, \<open>new\<close> is put before every
  character and at the end (bytes here, UTF-8 sequences in Go: the same on ASCII).
\<close>

function replace_from :: "string \<Rightarrow> string \<Rightarrow> string \<Rightarrow> string" where
  "replace_from old new s =
     (if s = [] \<or> old = [] then s
      else if prefix old s then new @ replace_from old new (drop (length old) s)
      else hd s # replace_from old new (tl s))"
  by pat_completeness auto
termination
  by (relation "measure (\<lambda>(old, new, s). length s)") auto

declare replace_from.simps [simp del]

definition ReplaceAll :: "string \<Rightarrow> string \<Rightarrow> string \<Rightarrow> string" where
  "ReplaceAll s old new =
     (if old = [] then concat (map (\<lambda>c. new @ [c]) s) @ new else replace_from old new s)"

section \<open>The world outside the program\<close>

text \<open>
  The file system is a map from the paths of regular files to their contents;
  directories are not part of the state. A system call fails when the world says so:
  \<open>faults\<close> names the calls that fail and the path they fail on. The message broker
  keeps the published messages in \<open>stream\<close> (subject, payload, message id) and refuses
  the next \<open>n\<close> publish calls when \<open>outage\<close> is \<open>Some n\<close>, every call when it is
  \<open>None\<close>. The object store maps (bucket, object name) to the stored bytes and their
  access rules. \<open>url_escape\<close> stands for \<open>url.Parse\<close> followed by \<open>EscapedPath\<close>
  (package net/url), \<open>None\<close> where \<open>url.Parse\<close> fails. \<open>trace\<close> records every call
  that reaches the world, in order. Calls to the logger are left out.
\<close>

datatype fault =
    FMkdir string | FOpen string | FRead string | FWrite string | FStat string
  | FRename string | FRemove string | FUploadCopy | FUploadClose

datatype ACLRule = ACLRule (Entity: string) (Role: string)

definition AllUsers :: string where "AllUsers = ''allUsers''"
definition RoleReader :: string where "RoleReader = ''READER''"

datatype event =
    EvMkdirAll string
  | EvOpen string
  | EvOpenFile string
  | EvStat string
  | EvWriteString string string
  | EvRename string string
  | EvRemoveAll string
  | EvReadFile string
  | EvPublish string string string
  | EvUpload string string string "ACLRule list"
  | EvAck string
  | EvNak string

record world =
  files :: "string \<rightharpoonup> string"
  faults :: "fault set"
  TEST_MODE :: string
  stream :: "(string \<times> string \<times> string) list"
  outage :: "nat option"
  objects :: "(string \<times> string) \<rightharpoonup> (string \<times> ACLRule list)"
  url_escape :: "string \<Rightarrow> string option"
  trace :: "event list"

definition log_event :: "event \<Rightarrow> world \<Rightarrow> world" where
  "log_event ev w = w\<lparr>trace := trace w @ [ev]\<rparr>"

text \<open>\<open>os.MkdirAll(p, 0750)\<close>.\<close>

definition os_MkdirAll :: "world \<Rightarrow> string \<Rightarrow> (error + unit) \<times> world" where
  "os_MkdirAll w p =
     (let w1 = log_event (EvMkdirAll p) w
      in if FMkdir p \<in> faults w then (Inl ErrIO, w1) else (Inr (), w1))"

text \<open>
  \<open>os.Open(p)\<close>, for reading: the handle is modelled by the contents it gives access to.
\<close>

definition os_Open :: "world \<Rightarrow> string \<Rightarrow> (error + string) \<times> world" where
  "os_Open w p =
     (let w1 = log_event (EvOpen p) w
      in case files w p of
           None \<Rightarrow> (Inl ErrNotExist, w1)
         | Some content \<Rightarrow> if FOpen p \<in> faults w then (Inl ErrIO, w1) else (Inr content, w1))"

text \<open>
  \<open>os.OpenFile(p, O_APPEND|O_CREATE|O_WRONLY, 0644)\<close>: a missing file is created empty.
  The handle is modelled by the path: between this call and the writes through the
  handle the program never renames the file.
\<close>

definition os_OpenFile :: "world \<Rightarrow> string \<Rightarrow> (error + unit) \<times> world" where
  "os_OpenFile w p =
     (let w1 = log_event (EvOpenFile p) w
      in if FOpen p \<in> faults w then (Inl ErrIO, w1)
         else case files w p of
                None \<Rightarrow> (Inr (), w1\<lparr>files := (files w)(p \<mapsto> [])\<rparr>)
              | Some content \<Rightarrow> (Inr (), w1))"

text \<open>\<open>f.Stat()\<close> followed by \<open>Size()\<close>.\<close>

definition file_Stat :: "world \<Rightarrow> string \<Rightarrow> (error + nat) \<times> world" where
  "file_Stat w p =
     (let w1 = log_event (EvStat p) w
      in if FStat p \<in> faults w then (Inl ErrIO, w1)
         else case files w p of
                None \<Rightarrow> (Inl ErrNotExist, w1)
              | Some content \<Rightarrow> (Inr (length content), w1))"

text \<open>\<open>f.WriteString(data)\<close> on a handle opened with \<open>O_APPEND\<close>.\<close>

definition file_WriteString :: "world \<Rightarrow> string \<Rightarrow> string \<Rightarrow> (error + unit) \<times> world" where
  "file_WriteString w p data =
     (let w1 = log_event (EvWriteString p data) w
      in if FWrite p \<in> faults w then (Inl ErrIO, w1)
         else (Inr (),
               w1\<lparr>files := (files w)(p \<mapsto> (case files w p of None \<Rightarrow> [] | Some c \<Rightarrow> c) @ data)\<rparr>))"

text \<open>\<open>os.Rename(old, new)\<close>: an existing file at \<open>new\<close> is replaced.\<close>

definition os_Rename :: "world \<Rightarrow> string \<Rightarrow> string \<Rightarrow> (error + unit) \<times> world" where
  "os_Rename w old new =
     (let w1 = log_event (EvRename old new) w
      in case files w old of
           None \<Rightarrow> (Inl ErrNotExist, w1)
         | Some content \<Rightarrow>
             if FRename old \<in> faults w then (Inl ErrIO, w1)
             else (Inr (), w1\<lparr>files := ((files w)(old := None))(new \<mapsto> content)\<rparr>))"

text \<open>
  \<open>os.RemoveAll(p)\<close>: removes \<open>p\<close> and everything below it; a missing path is no error.
\<close>

definition os_RemoveAll :: "world \<Rightarrow> string \<Rightarrow> (error + unit) \<times> world" where
  "os_RemoveAll w p =
     (let w1 = log_event (EvRemoveAll p) w
      in if FRemove p \<in> faults w then (Inl ErrIO, w1)
         else (Inr (),
               w1\<lparr>files := (\<lambda>q. if q = p \<or> prefix (p @ ''/'') q then None else files w q)\<rparr>))"

text \<open>
  \<open>os.ReadFile(p)\<close>. The fault \<open>FRead p\<close> is any failure of the read for which
  \<open>os.IsNotExist\<close> is false, whether or not a file is at \<open>p\<close>: no permission, an I/O
  error, or a parent of \<open>p\<close> that is a regular file (ENOTDIR). Only a path that is
  absent and has no such fault gives \<open>ErrNotExist\<close>.
\<close>

definition os_ReadFile :: "world \<Rightarrow> string \<Rightarrow> (error + string) \<times> world" where
  "os_ReadFile w p =
     (let w1 = log_event (EvReadFile p) w
      in case files w p of
           None \<Rightarrow> if FRead p \<in> faults w then (Inl ErrIO, w1) else (Inl ErrNotExist, w1)
         | Some content \<Rightarrow> if FRead p \<in> faults w then (Inl ErrIO, w1) else (Inr content, w1))"

text \<open>
  The parents of a path are its proper prefixes that end before a slash. Directories
  not being part of the state, a world says that a parent of \<open>p\<close> is a regular file
  through \<open>below_file\<close>; such a world is to name the fault \<open>FRead p\<close>.
\<close>

fun parents_from :: "string \<Rightarrow> string \<Rightarrow> string list" where
  "parents_from acc [] = []"
| "parents_from acc (c # cs) =
     (if c = SLASH then acc # parents_from (acc @ [c]) cs else parents_from (acc @ [c]) cs)"

definition parents :: "string \<Rightarrow> string list" where
  "parents p = parents_from [] p"

definition below_file :: "world \<Rightarrow> string \<Rightarrow> bool" where
  "below_file w p = list_ex (\<lambda>a. files w a \<noteq> None) (parents p)"

text \<open>
  \<open>js.Publish(subject, data, nats.MsgId(id))\<close>: True when the broker stored the message.
\<close>

definition js_Publish :: "world \<Rightarrow> string \<Rightarrow> string \<Rightarrow> string \<Rightarrow> bool \<times> world" where
  "js_Publish w subject data msgid =
     (let w1 = log_event (EvPublish subject data msgid) w
      in case outage w of
           None \<Rightarrow> (False, w1)
         | Some 0 \<Rightarrow> (True, w1\<lparr>stream := stream w @ [(subject, data, msgid)]\<rparr>)
         | Some (Suc n) \<Rightarrow> (False, w1\<lparr>outage := Some n\<rparr>))"

section \<open>Package msg_storer\<close>

definition DefaultCurrentDB :: string where "DefaultCurrentDB = ''current.db''"
definition DefaultArchiveIndex :: string where "DefaultArchiveIndex = ''archive.index''"
definition DefaultDatastore :: string where "DefaultDatastore = ''./datastore''"
definition fileSize :: nat where "fileSize = 1024 * 1024 * 1"
definition DefaultDomain :: string where "DefaultDomain = ''onglai-msg''"

text \<open>\<open>fmt.Sprintf(DefaultSubject, a, b)\<close> with the format \<open>%s.archive.bucket.job.%s\<close>.\<close>

definition DefaultSubject :: "string \<Rightarrow> string \<Rightarrow> string" where
  "DefaultSubject a b = a @ ''.archive.bucket.job.'' @ b"

record Storer =
  datastore :: string
  counter :: "64 word"
  domain :: string
  hostname :: string

definition getFirstSeqFromFile :: "world \<Rightarrow> string \<Rightarrow> (error + string) \<times> world" where
  "getFirstSeqFromFile w filename =
     (case os_Open w filename of
        (Inl e, w1) \<Rightarrow> (Inl e, w1)
      | (Inr content, w1) \<Rightarrow>
          (case (if FRead filename \<in> faults w1 then Inl ErrIO else ReadString content) of
             Inl e \<Rightarrow> (Inl e, w1)
           | Inr line \<Rightarrow> (index (SplitN2 line) 0, w1)))"

text \<open>
  The loop of \<open>GetArchivedFileBySeq\<close> over the lines of the index: \<open>afile\<close> is the
  reference kept so far. A line whose first field is no number is skipped; a line
  with a sequence above \<open>seq\<close> ends the loop.
\<close>

fun index_scan :: "64 word \<Rightarrow> string \<Rightarrow> string list \<Rightarrow> error + string" where
  "index_scan seq afile [] = Inr afile"
| "index_scan seq afile (l # ls) =
     (let parseData = SplitN2 l
      in case index parseData 0 of
           Inl e \<Rightarrow> Inl e
         | Inr field0 \<Rightarrow>
             (case ParseUint field0 of
                Inl e \<Rightarrow> index_scan seq afile ls
              | Inr archiveSeq \<Rightarrow>
                  if archiveSeq \<le> seq
                  then (case index parseData 1 of
                          Inl e \<Rightarrow> Inl e
                        | Inr field1 \<Rightarrow> index_scan seq field1 ls)
                  else Inr afile))"

definition GetArchivedFileBySeq ::
  "Storer \<Rightarrow> world \<Rightarrow> string \<Rightarrow> 64 word \<Rightarrow> (error + string) \<times> world" where
  "GetArchivedFileBySeq sr w dstPath seq =
     (let dstDir = path_Join [datastore sr, dstPath];
          currentFile = path_Join [dstDir, DefaultCurrentDB]
      in case getFirstSeqFromFile w currentFile of
           (Inl e, w1) \<Rightarrow> (Inl e, w1)
         | (Inr seqStr, w1) \<Rightarrow>
             (case ParseUint seqStr of
                Inl e \<Rightarrow> (Inl e, w1)
              | Inr curSeq \<Rightarrow>
                  if curSeq \<le> seq then (Inr currentFile, w1)
                  else
                    (let dstFile = path_Join [dstDir, DefaultArchiveIndex]
                     in case os_Open w1 dstFile of
                          (Inl e, w2) \<Rightarrow> (Inl e, w2)
                        | (Inr content, w2) \<Rightarrow>
                            (case index_scan seq []
                                    (if FRead dstFile \<in> faults w2 then [] else ScanLines content) of
                               Inl e \<Rightarrow> (Inl e, w2)
                             | Inr afile \<Rightarrow>
                                 if afile \<noteq> [] then (Inr afile, w2)
                                 else (Inl ErrSeqNotFound, w2)))))"

definition updateIndex :: "world \<Rightarrow> string \<Rightarrow> string \<Rightarrow> string \<Rightarrow> (error + unit) \<times> world" where
  "updateIndex w filename archiveName seq =
     (let data = seq @ '':'' @ archiveName @ [NL];
          dstDir = path_Dir filename;
          indexFilename = path_Join [dstDir, DefaultArchiveIndex]
      in case os_OpenFile w indexFilename of
           (Inl e, w1) \<Rightarrow> (Inl e, w1)
         | (Inr _, w1) \<Rightarrow> file_WriteString w1 indexFilename data)"

text \<open>
  \<open>triggerUploader\<close> publishes the job and tries again for as long as the broker
  refuses; it has no other exit, so it returns nothing (\<open>None\<close>) when the broker
  refuses for ever. The pause between two tries is not modelled.
\<close>

partial_function (option) publish_loop :: "string \<Rightarrow> string \<Rightarrow> world \<Rightarrow> world option" where
  "publish_loop subject data w =
     (let r = js_Publish w subject data data
      in if fst r then Some (snd r) else publish_loop subject data (snd r))"

definition triggerUploader ::
  "Storer \<Rightarrow> world \<Rightarrow> string \<Rightarrow> string \<Rightarrow> ((error + unit) \<times> world) option" where
  "triggerUploader sr w filename seq =
     (let subject = DefaultSubject (domain sr) (hostname sr);
          data = seq @ '':'' @ filename
      in case publish_loop subject data w of
           None \<Rightarrow> None
         | Some w1 \<Rightarrow> Some (Inr (), w1))"

definition archiveFile ::
  "Storer \<Rightarrow> world \<Rightarrow> string \<Rightarrow> ((error + unit) \<times> world) option" where
  "archiveFile sr w filename =
     (case getFirstSeqFromFile w filename of
        (Inl e, w1) \<Rightarrow> Some (Inl e, w1)
      | (Inr seq, w1) \<Rightarrow>
          if TEST_MODE w1 \<noteq> [] then
            (let archivePath = ReplaceAll filename (path_Join [datastore sr])
                                 (path_Join [datastore sr, ''archive'']);
                 archiveName = path_Join [path_Dir archivePath, ''MSG_'' @ seq @ ''.db'']
             in case os_MkdirAll w1 (path_Dir archiveName) of
                  (Inl e, w2) \<Rightarrow> Some (Inl e, w2)
                | (Inr _, w2) \<Rightarrow>
                    (case os_Rename w2 filename archiveName of
                       (Inl e, w3) \<Rightarrow> Some (Inl e, w3)
                     | (Inr _, w3) \<Rightarrow> Some (updateIndex w3 filename archiveName seq)))
          else
            (let archiveName = path_Join [path_Dir filename, ''MSG_'' @ seq @ ''.db'']
             in case os_Rename w1 filename archiveName of
                  (Inl e, w2) \<Rightarrow> Some (Inl e, w2)
                | (Inr _, w2) \<Rightarrow> triggerUploader sr w2 archiveName seq))"

definition processFilename :: "Storer \<Rightarrow> world \<Rightarrow> string \<Rightarrow> (error + string) \<times> world" where
  "processFilename sr w dstPath =
     (let dstDir = path_Join [datastore sr, dstPath]
      in case os_MkdirAll w dstDir of
           (Inl e, w1) \<Rightarrow> (Inl e, w1)
         | (Inr _, w1) \<Rightarrow> (Inr (path_Join [dstDir, DefaultCurrentDB]), w1))"

text \<open>
  The loop of \<open>MsgStore\<close>: open the current segment; below the check interval count the
  call and leave; otherwise reset the counter and look at the size, and after an
  archival go round again.
\<close>

function MsgStore_loop ::
  "Storer \<Rightarrow> world \<Rightarrow> string \<Rightarrow> ((error + unit) \<times> Storer \<times> world) option" where
  "MsgStore_loop sr w dstFile =
     (case os_OpenFile w dstFile of
        (Inl e, w1) \<Rightarrow> Some (Inl e, sr, w1)
      | (Inr _, w1) \<Rightarrow>
          if counter sr < 100 then Some (Inr (), sr\<lparr>counter := counter sr + 1\<rparr>, w1)
          else
            (case file_Stat w1 dstFile of
               (Inl e, w2) \<Rightarrow> Some (Inl e, sr\<lparr>counter := 0\<rparr>, w2)
             | (Inr sz, w2) \<Rightarrow>
                 if fileSize \<le> sz then
                   (case archiveFile (sr\<lparr>counter := 0\<rparr>) w2 dstFile of
                      None \<Rightarrow> None
                    | Some (Inl e, w3) \<Rightarrow> Some (Inl e, sr\<lparr>counter := 0\<rparr>, w3)
                    | Some (Inr _, w3) \<Rightarrow> MsgStore_loop (sr\<lparr>counter := 0\<rparr>) w3 dstFile)
                 else Some (Inr (), sr\<lparr>counter := 0\<rparr>, w2)))"
  by pat_completeness auto
termination
  by (relation "measure (\<lambda>(sr, w, dstFile). if counter sr < 100 then 0 else 1)") auto

declare MsgStore_loop.simps [simp del]

definition MsgStore ::
  "Storer \<Rightarrow> world \<Rightarrow> string \<Rightarrow> 64 word \<Rightarrow> string \<Rightarrow>
     ((error + string) \<times> Storer \<times> world) option" where
  "MsgStore sr w dstPath seq rawData =
     (case processFilename sr w dstPath of
        (Inl e, w1) \<Rightarrow> Some (Inl e, sr, w1)
      | (Inr dstFile, w1) \<Rightarrow>
          (case MsgStore_loop sr w1 dstFile of
             None \<Rightarrow> None
           | Some (Inl e, sr1, w2) \<Rightarrow> Some (Inl e, sr1, w2)
           | Some (Inr _, sr1, w2) \<Rightarrow>
               (let data = itoa (unat seq) @ '':'' @ rawData @ [NL]
                in case file_WriteString w2 dstFile data of
                     (Inl e, w3) \<Rightarrow> Some (Inl e, sr1, w3)
                   | (Inr _, w3) \<Rightarrow> Some (Inr dstFile, sr1, w3))))"

section \<open>Package uploader (gcs_uploader)\<close>

record Uploader =
  up_domain :: string
  bucketName :: string
  bucketCategory :: string
  up_hostname :: string

record UploaderReq =
  FileName :: string
  Category :: string
  RawData :: string

record Msg =
  Data :: string

text \<open>\<open>m.Ack()\<close> and \<open>m.Nak()\<close>; the handler ignores what they return.\<close>

definition m_Ack :: "world \<Rightarrow> Msg \<Rightarrow> world" where
  "m_Ack w m = log_event (EvAck (Data m)) w"

definition m_Nak :: "world \<Rightarrow> Msg \<Rightarrow> world" where
  "m_Nak w m = log_event (EvNak (Data m)) w"

definition Uploader_updateIndex ::
  "world \<Rightarrow> string \<Rightarrow> string \<Rightarrow> string \<Rightarrow> (error + unit) \<times> world" where
  "Uploader_updateIndex w filename archiveName seq =
     (let data = seq @ '':'' @ archiveName @ [NL];
          dstDir = path_Dir filename;
          indexFilename = path_Join [dstDir, ''archive.index'']
      in case os_OpenFile w indexFilename of
           (Inl e, w1) \<Rightarrow> (Inl e, w1)
         | (Inr _, w1) \<Rightarrow> file_WriteString w1 indexFilename data)"

text \<open>
  \<open>saveFile\<close>: the object is written under \<open>Category/FileName\<close> with the rule that
  gives all users the reader role; it exists in the bucket once \<open>io.Copy\<close> and
  \<open>Close\<close> have succeeded. The URL is built from the bucket and the object name.
\<close>

definition saveFile :: "Uploader \<Rightarrow> world \<Rightarrow> UploaderReq \<Rightarrow> (error + string) \<times> world" where
  "saveFile u w req =
     (let fileName = FileName req;
          filePath = Category req @ ''/'' @ fileName;
          acl = [ACLRule AllUsers RoleReader];
          w1 = log_event (EvUpload (bucketName u) filePath (RawData req) acl) w
      in if FUploadCopy \<in> faults w then (Inl ErrUpload, w1)
         else if FUploadClose \<in> faults w then (Inl ErrUpload, w1)
         else
           (let w2 = w1\<lparr>objects := (objects w)((bucketName u, filePath) \<mapsto> (RawData req, acl))\<rparr>
            in case url_escape w (bucketName u @ ''/'' @ filePath) of
                 None \<Rightarrow> (Inl ErrURL, w2)
               | Some p \<Rightarrow> (Inr (''https://'' @ p), w2)))"

definition msgHandler :: "Uploader \<Rightarrow> world \<Rightarrow> Msg \<Rightarrow> (error + unit) \<times> world" where
  "msgHandler u w m =
     (let mdata = SplitN2 (Data m)
      in case index mdata 1 of
           Inl e \<Rightarrow> (Inl e, w)
         | Inr archiveFilename \<Rightarrow>
             (case os_ReadFile w archiveFilename of
                (Inl e, w1) \<Rightarrow>
                  if e = ErrNotExist then (Inr (), m_Ack w1 m) else (Inr (), m_Nak w1 m)
              | (Inr data, w1) \<Rightarrow>
                  (let uploadReq = \<lparr>FileName = archiveFilename,
                                    Category = bucketCategory u,
                                    RawData = data\<rparr>
                   in case saveFile u w1 uploadReq of
                        (Inl e, w2) \<Rightarrow> (Inr (), m_Nak w2 m)
                      | (Inr url, w2) \<Rightarrow>
                          (case index mdata 0 of
                             Inl e \<Rightarrow> (Inl e, w2)
                           | Inr seq \<Rightarrow>
                               (case Uploader_updateIndex w2 archiveFilename url seq of
                                  (Inl e, w3) \<Rightarrow> (Inr (), m_Nak w3 m)
                                | (Inr _, w3) \<Rightarrow>
                                    (case os_RemoveAll w3 archiveFilename of
                                       (Inl e, w4) \<Rightarrow> (Inr (), m_Nak w4 m)
                                     | (Inr _, w4) \<Rightarrow> (Inr (), m_Ack w4 m)))))))"

section \<open>Package nats_connector: the retry delay\<close>

text \<open>
  A \<open>time.Duration\<close> is a signed 64-bit count of nanoseconds. The arithmetic is done on
  integers with the wrap-around of the machine written out (\<open>wrap64\<close>); \<open>quot\<close> is Go's
  division, which truncates towards zero. \<open>int\<close> is taken to be 64 bits wide.
\<close>

definition wrap64 :: "int \<Rightarrow> int" where
  "wrap64 x = (x + 2 ^ 63) mod 2 ^ 64 - 2 ^ 63"

definition quot :: "int \<Rightarrow> int \<Rightarrow> int" where
  "quot a b = sgn a * sgn b * (\<bar>a\<bar> div \<bar>b\<bar>)"

definition Millisecond :: int where "Millisecond = 1000000"
definition Second :: int where "Second = 1000000000"
definition DefaultAckWait :: int where "DefaultAckWait = 30 * Second"

record WorkQueueConfig =
  AckWait :: "64 word"

record MsgMetadata =
  NumDelivered :: "64 word"

text \<open>
  \<open>meta\<close> is \<open>None\<close> when \<open>msg.Metadata()\<close> returns an error or nil. \<open>rnd\<close> stands for
  the choice of the random source: \<open>rand.Int63n(n)\<close> returns some number from 0 up to
  \<open>n - 1\<close>, here the remainder of \<open>rnd\<close> modulo \<open>n\<close>, so that every number of that range
  is the result for some \<open>rnd\<close>; \<open>Int63n\<close> panics on an argument that is not positive.
\<close>

definition rand_Int63n :: "nat \<Rightarrow> int \<Rightarrow> error + int" where
  "rand_Int63n rnd n = (if n \<le> 0 then Inl Panic else Inr (int rnd mod n))"

definition nakDelay :: "WorkQueueConfig \<Rightarrow> MsgMetadata option \<Rightarrow> nat \<Rightarrow> error + int" where
  "nakDelay config meta rnd =
     (let attempt = (case meta of
                       None \<Rightarrow> 1
                     | Some md \<Rightarrow> if 0 < NumDelivered md then sint (NumDelivered md) else 1);
          ackWait0 = sint (AckWait config);
          ackWait = (if ackWait0 \<le> 0 then DefaultAckWait else ackWait0);
          baseDelay0 = quot ackWait 4;
          baseDelay = (if baseDelay0 < Second then Second else baseDelay0);
          maxDelay0 = wrap64 (ackWait - Second);
          maxDelay = (if maxDelay0 \<le> 0 then baseDelay else maxDelay0);
          count = wrap64 (attempt - 1)
      in if count < 0 then Inl Panic
         else
           (let shifted = (if 64 \<le> count then 0 else wrap64 (2 ^ nat count));
                delay0 = wrap64 (baseDelay * shifted);
                delay = (if maxDelay < delay0 then maxDelay else delay0);
                jitterRange0 = quot delay 5;
                jitterRange = (if jitterRange0 < Millisecond then Millisecond else jitterRange0)
            in case rand_Int63n rnd jitterRange of
                 Inl e \<Rightarrow> Inl e
               | Inr jitter \<Rightarrow>
                   (let finalDelay0 = wrap64 (delay + jitter);
                        finalDelay = (if finalDelay0 \<le> 0 then baseDelay else finalDelay0)
                    in Inr finalDelay)))"

section \<open>Package nats_connector: the consumer and its shutdown\<close>
















section \<open>Records, index entries and the floor lookup\<close>

text \<open>
  The line of a record in a segment, and of an entry in the archive index, without its
  newline: what \<open>MsgStore\<close> and \<open>updateIndex\<close> format for a sequence number printed
  with \<open>%d\<close>.
\<close>

definition enc_line :: "64 word \<Rightarrow> string \<Rightarrow> string" where
  "enc_line q r = itoa (unat q) @ '':'' @ r"

text \<open>The index file that holds the given entries, in order.\<close>

definition index_file :: "(64 word \<times> string) list \<Rightarrow> string" where
  "index_file es = concat (map (\<lambda>e. enc_line (fst e) (snd e) @ [NL]) es)"

text \<open>
  An entry that the scanner gives back as it was written: the reference is not empty,
  has no newline and no carriage return at its end, and the line fits the scanner's
  buffer.
\<close>

definition wf_entry :: "64 word \<times> string \<Rightarrow> bool" where
  "wf_entry e \<longleftrightarrow>
     snd e \<noteq> [] \<and> NL \<notin> set (snd e) \<and> last (snd e) \<noteq> CR \<and>
     length (enc_line (fst e) (snd e)) < MaxScanTokenSize"

text \<open>
  The floor lookup in the words of the specification: over the entries in file order,
  the reference of the last entry before the first one whose sequence exceeds the
  requested one; \<open>ErrSeqNotFound\<close> when there is none.
\<close>

definition floor_lookup :: "64 word \<Rightarrow> (64 word \<times> string) list \<Rightarrow> error + string" where
  "floor_lookup s es =
     (case takeWhile (\<lambda>e. fst e \<le> s) es of
        [] \<Rightarrow> Inl ErrSeqNotFound
      | qs \<Rightarrow> Inr (snd (last qs)))"

section \<open>Example inputs\<close>

definition storer0 :: Storer where
  "storer0 = \<lparr>datastore = DefaultDatastore, counter = 0, domain = DefaultDomain, hostname = ''host1''\<rparr>"

text \<open>
  A partition \<open>100/100\<close> whose current segment starts at sequence 5000 and whose index
  holds the entries 1001, 2001 and 3001.
\<close>

definition world0 :: world where
  "world0 =
     \<lparr>files = [''datastore/100/100/current.db'' \<mapsto> ''5000:hello'' @ [NL],
               ''datastore/100/100/archive.index'' \<mapsto>
                  ''1001:A'' @ [NL] @ ''2001:B'' @ [NL] @ ''3001:C'' @ [NL]],
      faults = {}, TEST_MODE = [], stream = [], outage = Some 0, objects = Map.empty,
      url_escape = Some, trace = []\<rparr>"

text \<open>
  The partition of \<open>world0\<close> before its first rotation, when it has a current segment
  and no index yet; and with its current segment missing, empty, starting with a line
  that is no record, and unreadable.
\<close>

definition world_unrotated :: world where
  "world_unrotated = world0\<lparr>files := [''datastore/100/100/current.db'' \<mapsto> ''5000:hello'' @ [NL]]\<rparr>"

definition world_missing :: world where
  "world_missing = world0\<lparr>files := (files world0)(''datastore/100/100/current.db'' := None)\<rparr>"

definition world_empty :: world where
  "world_empty = world0\<lparr>files := (files world0)(''datastore/100/100/current.db'' \<mapsto> [])\<rparr>"

definition world_garbled :: world where
  "world_garbled = world0\<lparr>files := (files world0)(''datastore/100/100/current.db'' \<mapsto> ''abc:x'' @ [NL])\<rparr>"

definition world_unreadable :: world where
  "world_unreadable = world0\<lparr>faults := {FRead ''datastore/100/100/current.db''}\<rparr>"

definition uploader0 :: Uploader where
  "uploader0 = \<lparr>up_domain = DefaultDomain, bucketName = ''example.com'',
                 bucketCategory = ''msg-store'', up_hostname = ''host1''\<rparr>"

text \<open>
  The job for the rotated segment \<open>MSG_1001.db\<close> of partition \<open>100/100\<close>, and a
  world in which the segment waits for its upload while the index holds nothing yet.
\<close>

definition job0 :: Msg where
  "job0 = \<lparr>Data = ''1001:datastore/100/100/MSG_1001.db''\<rparr>"

definition world_job :: world where
  "world_job =
     \<lparr>files = [''datastore/100/100/current.db'' \<mapsto> ''5000:hello'' @ [NL],
               ''datastore/100/100/MSG_1001.db'' \<mapsto> ''1001:a'' @ [NL] @ ''1002:b'' @ [NL]],
      faults = {}, TEST_MODE = [], stream = [], outage = Some 0, objects = Map.empty,
      url_escape = Some, trace = []\<rparr>"

text \<open>
  The world after the handler has run once on \<open>job0\<close> without any failure, and the
  world after a first run in which the deletion failed and a second run in which nothing
  failed.
\<close>

definition world_done :: world where
  "world_done = snd (msgHandler uploader0 world_job job0)"

definition world_retried :: world where
  "world_retried =
     snd (msgHandler uploader0
            ((snd (msgHandler uploader0
                     (world_job\<lparr>faults := {FRemove ''datastore/100/100/MSG_1001.db''}\<rparr>) job0))
               \<lparr>faults := {}\<rparr>)
            job0)"

text \<open>A single path element that \<open>path.Clean\<close> keeps as it is.\<close>

definition simple_name :: "string \<Rightarrow> bool" where
  "simple_name n \<longleftrightarrow> n \<noteq> [] \<and> SLASH \<notin> set n \<and> n \<noteq> ''.'' \<and> n \<noteq> ''..''"

text \<open>The bytes of a file, none when the file does not exist.\<close>

definition contents :: "world \<Rightarrow> string \<Rightarrow> string" where
  "contents w f = (case files w f of None \<Rightarrow> [] | Some c \<Rightarrow> c)"

text \<open>
  A storer whose counter has reached the check interval, a world without any file, and
  a world in which the current segment of partition \<open>100/100\<close> has grown beyond the
  size bound.
\<close>

definition storer_due :: Storer where
  "storer_due = storer0\<lparr>counter := 100\<rparr>"

definition world_fresh :: world where
  "world_fresh = world0\<lparr>files := Map.empty\<rparr>"

definition world_big :: world where
  "world_big =
     world0\<lparr>files := [''datastore/100/100/current.db'' \<mapsto>
                         ''5000:hello'' @ [NL] @ replicate 1048576 (CHR ''x'')]\<rparr>"

text \<open>
  Reading a segment back: its complete lines, as successive calls of
  \<open>reader.ReadString('\\n')\<close> deliver them (the reader of \<open>getFirstSeqFromFile\<close>), each
  without its newline; and the fields of a line, taken as \<open>GetArchivedFileBySeq\<close> takes
  them from a line of the index: split at the first colon, the first field parsed as
  an unsigned integer.
\<close>

fun lines_from :: "string \<Rightarrow> string \<Rightarrow> string list" where
  "lines_from cur [] = []"
| "lines_from cur (c # cs) =
     (if c = NL then cur # lines_from [] cs else lines_from (cur @ [c]) cs)"

definition segment_lines :: "string \<Rightarrow> string list" where
  "segment_lines content = lines_from [] content"

definition decode_line :: "string \<Rightarrow> error + 64 word \<times> string" where
  "decode_line l =
     (let cols = SplitN2 l
      in case index cols 0 of
           Inl e \<Rightarrow> Inl e
         | Inr field0 \<Rightarrow>
             (case ParseUint field0 of
                Inl e \<Rightarrow> Inl e
              | Inr q \<Rightarrow>
                  (case index cols 1 of
                     Inl e \<Rightarrow> Inl e
                   | Inr field1 \<Rightarrow> Inr (q, field1))))"

section \<open>The retry delay as the specification has it\<close>









section \<open>Facts about the codec\<close>

lemma digit_val_digit_char: "d < 10 \<Longrightarrow> digit_val (digit_char d) = Some d"
proof -
  assume "d < 10"
  then consider "d = 0" | "d = 1" | "d = 2" | "d = 3" | "d = 4" | "d = 5" | "d = 6" | "d = 7"
    | "d = 8" | "d = 9"
    by (auto simp: less_Suc_eq eval_nat_numeral)
  then show ?thesis
    by cases (simp_all add: digit_val_def digit_char_def)
qed

lemma digit_char_not_sep: "d < 10 \<Longrightarrow> digit_char d \<noteq> COLON \<and> digit_char d \<noteq> NL \<and> digit_char d \<noteq> SLASH"
proof -
  assume "d < 10"
  then consider "d = 0" | "d = 1" | "d = 2" | "d = 3" | "d = 4" | "d = 5" | "d = 6" | "d = 7"
    | "d = 8" | "d = 9"
    by (auto simp: less_Suc_eq eval_nat_numeral)
  then show ?thesis
    by cases (simp_all add: digit_char_def)
qed

lemma parse_digits_snoc:
  "parse_digits acc (xs @ [c]) =
     (case parse_digits acc xs of
        Inl e \<Rightarrow> Inl e
      | Inr m \<Rightarrow> parse_digits m [c])"
  by (induction xs arbitrary: acc) (auto split: option.splits)

lemma parse_digits_itoa: "n < 2 ^ 64 \<Longrightarrow> parse_digits 0 (itoa n) = Inr n"
proof (induction n rule: itoa.induct)
  case (1 n)
  show ?case
  proof (cases "n < 10")
    case True
    then show ?thesis
      using "1.prems" by (subst itoa.simps) (simp add: digit_val_digit_char)
  next
    case False
    have small: "n div 10 < 2 ^ 64" using "1.prems" by (simp add: less_mult_imp_div_less)
    have ih: "parse_digits 0 (itoa (n div 10)) = Inr (n div 10)"
      using "1.IH" [OF False small] .
    have d: "digit_val (digit_char (n mod 10)) = Some (n mod 10)"
      by (simp add: digit_val_digit_char)
    have "parse_digits 0 (itoa n) = parse_digits (n div 10) [digit_char (n mod 10)]"
      using False by (subst itoa.simps) (simp add: parse_digits_snoc ih)
    also have "\<dots> = Inr n"
      using "1.prems" by (simp add: d)
    finally show ?thesis .
  qed
qed

lemma itoa_not_Nil: "itoa n \<noteq> []"
  by (subst itoa.simps) simp

lemma itoa_no_sep: "COLON \<notin> set (itoa n) \<and> NL \<notin> set (itoa n) \<and> SLASH \<notin> set (itoa n)"
proof (induction n rule: itoa.induct)
  case (1 n)
  show ?case
  proof (cases "n < 10")
    case True
    then show ?thesis
      using digit_char_not_sep [of n] by (subst (1 2 3) itoa.simps) auto
  next
    case False
    then show ?thesis
      using "1.IH" digit_char_not_sep [of "n mod 10"] by (subst (1 2 3) itoa.simps) auto
  qed
qed

lemma ParseUint_itoa: "ParseUint (itoa (unat q)) = Inr q"
proof -
  have "unat q < 2 ^ 64" using unsigned_less [of q, where 'a = nat] by simp
  then show ?thesis
    by (simp add: ParseUint_def itoa_not_Nil parse_digits_itoa)
qed

lemma takeWhile_sep: "d \<notin> set l \<Longrightarrow> takeWhile (\<lambda>c. c \<noteq> d) (l @ d # r) = l"
  by (induction l) auto

lemma dropWhile_sep: "d \<notin> set l \<Longrightarrow> dropWhile (\<lambda>c. c \<noteq> d) (l @ d # r) = d # r"
  by (induction l) auto

lemma SplitN2_enc: "SplitN2 (itoa n @ '':'' @ r) = [itoa n, r]"
  using itoa_no_sep [of n]
  by (simp add: SplitN2_def takeWhile_sep dropWhile_sep)

lemma scan_from_line:
  "NL \<notin> set l \<Longrightarrow>
   scan_from cur (l @ NL # rest) =
     (if MaxScanTokenSize \<le> length (cur @ l) then [] else dropCR (cur @ l) # scan_from [] rest)"
  by (induction l arbitrary: cur) auto

lemma SplitN2_enc_line: "SplitN2 (enc_line q r) = [itoa (unat q), r]"
  using SplitN2_enc [of "unat q" r] by (simp add: enc_line_def)

lemma NL_notin_enc_line: "NL \<notin> set r \<Longrightarrow> NL \<notin> set (enc_line q r)"
  using itoa_no_sep [of "unat q"] by (simp add: enc_line_def)

lemma ReadString_first_line:
  "NL \<notin> set l \<Longrightarrow> ReadString (l @ NL # rest) = Inr (l @ [NL])"
  by (simp add: ReadString_def takeWhile_sep)

section \<open>Facts about the world\<close>

lemma faults_log_event [simp]: "faults (log_event ev w) = faults w"
  by (simp add: log_event_def)

lemma files_log_event [simp]: "files (log_event ev w) = files w"
  by (simp add: log_event_def)

lemma trace_log_event [simp]: "trace (log_event ev w) = trace w @ [ev]"
  by (simp add: log_event_def)

section \<open>Looking up the segment of a sequence number\<close>

lemma getFirstSeqFromFile_segment:
  assumes "files w f = Some (enc_line C p @ NL # rest)" and "NL \<notin> set p"
    and "FOpen f \<notin> faults w" and "FRead f \<notin> faults w"
  shows "getFirstSeqFromFile w f = (Inr (itoa (unat C)), log_event (EvOpen f) w)"
proof -
  have nl: "NL \<notin> set (enc_line C p)" using assms(2) by (rule NL_notin_enc_line)
  have split: "SplitN2 (enc_line C p @ [NL]) = [itoa (unat C), p @ [NL]]"
    using SplitN2_enc [of "unat C" "p @ [NL]"] by (simp add: enc_line_def)
  show ?thesis
    using assms(1,3,4)
    by (simp add: getFirstSeqFromFile_def os_Open_def ReadString_first_line [OF nl] split
        index_def)
qed

lemma dropCR_enc_line: "r \<noteq> [] \<Longrightarrow> last r \<noteq> CR \<Longrightarrow> dropCR (enc_line q r) = enc_line q r"
  by (simp add: dropCR_def enc_line_def)

lemma ScanLines_index_file:
  "list_all wf_entry es \<Longrightarrow> ScanLines (index_file es) = map (\<lambda>e. enc_line (fst e) (snd e)) es"
proof (induction es)
  case Nil
  show ?case by (simp add: ScanLines_def index_file_def)
next
  case (Cons e es)
  from Cons.prems have wf: "wf_entry e" and rest: "list_all wf_entry es" by simp_all
  have nl: "NL \<notin> set (enc_line (fst e) (snd e))"
    using wf by (simp add: wf_entry_def NL_notin_enc_line)
  have "scan_from [] (enc_line (fst e) (snd e) @ NL # index_file es) =
          enc_line (fst e) (snd e) # scan_from [] (index_file es)"
    using wf by (simp add: scan_from_line [OF nl] wf_entry_def dropCR_enc_line)
  then show ?case
    using Cons.IH [OF rest] by (simp add: ScanLines_def index_file_def)
qed

lemma index_scan_entries:
  "list_all wf_entry es \<Longrightarrow>
   index_scan s a (map (\<lambda>e. enc_line (fst e) (snd e)) es) =
     Inr (case takeWhile (\<lambda>e. fst e \<le> s) es of [] \<Rightarrow> a | qs \<Rightarrow> snd (last qs))"
proof (induction es arbitrary: a)
  case Nil
  show ?case by simp
next
  case (Cons e es)
  from Cons.prems have rest: "list_all wf_entry es" by simp
  show ?case
  proof (cases "fst e \<le> s")
    case True
    then show ?thesis
      using Cons.IH [OF rest, of "snd e"]
      by (simp add: SplitN2_enc_line index_def ParseUint_itoa split: list.splits)
  next
    case False
    then show ?thesis
      by (simp add: SplitN2_enc_line index_def ParseUint_itoa)
  qed
qed

lemma takeWhile_last_ref:
  assumes "list_all wf_entry es" and "takeWhile P es \<noteq> []"
  shows "snd (last (takeWhile P es)) \<noteq> []"
proof -
  have "last (takeWhile P es) \<in> set (takeWhile P es)" using assms(2) by simp
  then have "last (takeWhile P es) \<in> set es" by (rule set_takeWhileD [THEN conjunct1])
  then show ?thesis using assms(1) by (auto simp: list_all_iff wf_entry_def)
qed

lemma GetArchivedFileBySeq_entries:
  assumes cur: "currentFile = path_Join [path_Join [datastore sr, dstPath], DefaultCurrentDB]"
    and idx: "indexFile = path_Join [path_Join [datastore sr, dstPath], DefaultArchiveIndex]"
    and seg: "files w currentFile = Some (enc_line C p @ NL # rest)" "NL \<notin> set p"
    and ok: "FOpen currentFile \<notin> faults w" "FRead currentFile \<notin> faults w"
  shows "(C \<le> s \<longrightarrow> fst (GetArchivedFileBySeq sr w dstPath s) = Inr currentFile) \<and>
         (s < C \<longrightarrow> files w indexFile = Some (index_file es) \<longrightarrow> list_all wf_entry es \<longrightarrow>
            FOpen indexFile \<notin> faults w \<longrightarrow> FRead indexFile \<notin> faults w \<longrightarrow>
            fst (GetArchivedFileBySeq sr w dstPath s) = floor_lookup s es)"
proof -
  have first: "getFirstSeqFromFile w currentFile = (Inr (itoa (unat C)), log_event (EvOpen currentFile) w)"
    using seg ok by (rule getFirstSeqFromFile_segment)
  show ?thesis
  proof (intro conjI impI)
    assume "C \<le> s"
    then show "fst (GetArchivedFileBySeq sr w dstPath s) = Inr currentFile"
      using first by (simp add: GetArchivedFileBySeq_def cur [symmetric] ParseUint_itoa)
  next
    assume lt: "s < C" and ifile: "files w indexFile = Some (index_file es)"
      and wf: "list_all wf_entry es"
      and iok: "FOpen indexFile \<notin> faults w" "FRead indexFile \<notin> faults w"
    let ?qs = "takeWhile (\<lambda>e. fst e \<le> s) es"
    have scan: "index_scan s [] (ScanLines (index_file es)) =
                  Inr (case ?qs of [] \<Rightarrow> [] | qs \<Rightarrow> snd (last qs))"
      using wf by (simp add: ScanLines_index_file index_scan_entries)
    have nonempty: "?qs \<noteq> [] \<Longrightarrow> snd (last ?qs) \<noteq> []"
      using wf by (rule takeWhile_last_ref)
    let ?a = "case ?qs of [] \<Rightarrow> [] | qs \<Rightarrow> snd (last qs)"
    have res: "fst (GetArchivedFileBySeq sr w dstPath s) =
                 (if ?a \<noteq> [] then Inr ?a else Inl ErrSeqNotFound)"
      using first lt ifile iok scan
      by (simp add: GetArchivedFileBySeq_def cur [symmetric] idx [symmetric] ParseUint_itoa
          os_Open_def not_le [symmetric])
    show "fst (GetArchivedFileBySeq sr w dstPath s) = floor_lookup s es"
    proof (cases ?qs)
      case Nil
      then show ?thesis using res by (simp add: floor_lookup_def)
    next
      case (Cons q qs')
      then have "snd (last ?qs) \<noteq> []" using nonempty by simp
      then show ?thesis using res Cons by (simp add: floor_lookup_def)
    qed
  qed
qed

lemma GetArchivedFileBySeq_index_errors:
  assumes cur: "currentFile = path_Join [path_Join [datastore sr, dstPath], DefaultCurrentDB]"
    and idx: "indexFile = path_Join [path_Join [datastore sr, dstPath], DefaultArchiveIndex]"
    and seg: "files w currentFile = Some (enc_line C p @ NL # rest)" "NL \<notin> set p"
    and ok: "FOpen currentFile \<notin> faults w" "FRead currentFile \<notin> faults w"
    and lt: "s < C"
  shows "files w indexFile = None \<Longrightarrow> fst (GetArchivedFileBySeq sr w dstPath s) = Inl ErrNotExist"
    and "files w indexFile = Some c \<Longrightarrow> FOpen indexFile \<in> faults w \<Longrightarrow>
           fst (GetArchivedFileBySeq sr w dstPath s) = Inl ErrIO"
proof -
  have first: "getFirstSeqFromFile w currentFile = (Inr (itoa (unat C)), log_event (EvOpen currentFile) w)"
    using seg ok by (rule getFirstSeqFromFile_segment)
  show "files w indexFile = None \<Longrightarrow> fst (GetArchivedFileBySeq sr w dstPath s) = Inl ErrNotExist"
    using first lt
    by (simp add: GetArchivedFileBySeq_def cur [symmetric] idx [symmetric] ParseUint_itoa
        os_Open_def not_le [symmetric])
  show "files w indexFile = Some c \<Longrightarrow> FOpen indexFile \<in> faults w \<Longrightarrow>
           fst (GetArchivedFileBySeq sr w dstPath s) = Inl ErrIO"
    using first lt
    by (simp add: GetArchivedFileBySeq_def cur [symmetric] idx [symmetric] ParseUint_itoa
        os_Open_def not_le [symmetric])
qed

text \<open>
  Claim C1, amended. Let the current segment of a partition begin with the record of
  sequence \<open>C\<close>. For a requested sequence \<open>s\<close> with \<open>s \<ge> C\<close>, \<open>GetArchivedFileBySeq\<close>
  returns the path of the current segment. For \<open>s < C\<close> it opens \<open>archive.index\<close>; when
  the partition has no index, as before its first rotation, or the index cannot be
  opened, it returns the error of the open. Else it scans the index in file order and
  returns the reference of the last entry whose sequence is at most \<open>s\<close>, no longer
  looking once an entry exceeds \<open>s\<close>; when no entry of the index qualifies it returns
  \<open>ErrSeqNotFound\<close>. The index holds entries as \<open>updateIndex\<close> writes them. The example
  of the claim (entries 1001, 2001, 3001 and a current segment at 5000) is computed
  below, from this theorem.
\<close>

theorem GetArchivedFileBySeq_floor_lookup:
  assumes cur: "currentFile = path_Join [path_Join [datastore sr, dstPath], DefaultCurrentDB]"
    and idx: "indexFile = path_Join [path_Join [datastore sr, dstPath], DefaultArchiveIndex]"
    and seg: "files w currentFile = Some (enc_line C p @ NL # rest)" "NL \<notin> set p"
    and ok: "FOpen currentFile \<notin> faults w" "FRead currentFile \<notin> faults w"
  shows "(C \<le> s \<longrightarrow> fst (GetArchivedFileBySeq sr w dstPath s) = Inr currentFile) \<and>
         (s < C \<longrightarrow> files w indexFile = Some (index_file es) \<longrightarrow> list_all wf_entry es \<longrightarrow>
            FOpen indexFile \<notin> faults w \<longrightarrow> FRead indexFile \<notin> faults w \<longrightarrow>
            fst (GetArchivedFileBySeq sr w dstPath s) = floor_lookup s es) \<and>
         (s < C \<longrightarrow> files w indexFile = None \<longrightarrow>
            fst (GetArchivedFileBySeq sr w dstPath s) = Inl ErrNotExist) \<and>
         (s < C \<longrightarrow> files w indexFile = Some c \<longrightarrow> FOpen indexFile \<in> faults w \<longrightarrow>
            fst (GetArchivedFileBySeq sr w dstPath s) = Inl ErrIO)"
  using GetArchivedFileBySeq_entries [OF assms, of s es]
    GetArchivedFileBySeq_index_errors(1) [OF assms, where s = s]
    GetArchivedFileBySeq_index_errors(2) [OF assms, where s = s and c = c]
  by blast

text \<open>The example of the claim, computed by the code.\<close>

lemmas path_defs = path_Join_def path_Clean_def path_Dir_def join_step_def clean_step_def
  DefaultCurrentDB_def DefaultArchiveIndex_def DefaultDatastore_def

lemma current0: "path_Join [path_Join [datastore storer0, ''100/100''], DefaultCurrentDB] =
    ''datastore/100/100/current.db''"
  by (simp add: storer0_def path_defs)

lemma index0: "path_Join [path_Join [datastore storer0, ''100/100''], DefaultArchiveIndex] =
    ''datastore/100/100/archive.index''"
  by (simp add: storer0_def path_defs)

lemma itoa_examples:
  "itoa 5000 = ''5000''" "itoa 1001 = ''1001''" "itoa 2001 = ''2001''" "itoa 3001 = ''3001''"
  by (simp_all add: itoa.simps digit_char_def)

lemma entries0: "list_all wf_entry [(1001, ''A''), (2001, ''B''), (3001, ''C'')]"
  by (simp add: wf_entry_def enc_line_def itoa_examples MaxScanTokenSize_def)

theorem GetArchivedFileBySeq_floor_lookup_witness:
  "fst (GetArchivedFileBySeq storer0 world0 ''100/100'' 1500) = Inr ''A'' \<and>
   fst (GetArchivedFileBySeq storer0 world0 ''100/100'' 2500) = Inr ''B'' \<and>
   fst (GetArchivedFileBySeq storer0 world0 ''100/100'' 3500) = Inr ''C'' \<and>
   fst (GetArchivedFileBySeq storer0 world0 ''100/100'' 5000) = Inr ''datastore/100/100/current.db'' \<and>
   fst (GetArchivedFileBySeq storer0 world0 ''100/100'' 500) = Inl ErrSeqNotFound \<and>
   fst (GetArchivedFileBySeq storer0 world_unrotated ''100/100'' 500) = Inl ErrNotExist"
proof -
  let ?es = "[(1001, ''A''), (2001, ''B''), (3001, ''C'')] :: (64 word \<times> string) list"
  have seg: "files world0 ''datastore/100/100/current.db'' = Some (enc_line 5000 ''hello'' @ NL # [])"
    by (simp add: world0_def enc_line_def itoa_examples)
  have idx: "files world0 ''datastore/100/100/archive.index'' = Some (index_file ?es)"
    by (simp add: world0_def index_file_def enc_line_def itoa_examples)
  have nl: "NL \<notin> set ''hello''" by simp
  have f: "FOpen ''datastore/100/100/current.db'' \<notin> faults world0"
    "FRead ''datastore/100/100/current.db'' \<notin> faults world0"
    "FOpen ''datastore/100/100/archive.index'' \<notin> faults world0"
    "FRead ''datastore/100/100/archive.index'' \<notin> faults world0"
    by (simp_all add: world0_def)
  note inst = GetArchivedFileBySeq_floor_lookup [OF current0 [symmetric] index0 [symmetric] seg nl f(1,2),
      where es = ?es, THEN conjunct1]
    GetArchivedFileBySeq_floor_lookup [OF current0 [symmetric] index0 [symmetric] seg nl f(1,2),
      where es = ?es, THEN conjunct2, THEN conjunct1]
  have fl: "floor_lookup 1500 ?es = Inr ''A''" "floor_lookup 2500 ?es = Inr ''B''"
    "floor_lookup 3500 ?es = Inr ''C''" "floor_lookup 500 ?es = Inl ErrSeqNotFound"
    by (simp_all add: floor_lookup_def)
  have five: "fst (GetArchivedFileBySeq storer0 world0 ''100/100'' 1500) = Inr ''A''"
    "fst (GetArchivedFileBySeq storer0 world0 ''100/100'' 2500) = Inr ''B''"
    "fst (GetArchivedFileBySeq storer0 world0 ''100/100'' 3500) = Inr ''C''"
    "fst (GetArchivedFileBySeq storer0 world0 ''100/100'' 5000) = Inr ''datastore/100/100/current.db''"
    "fst (GetArchivedFileBySeq storer0 world0 ''100/100'' 500) = Inl ErrSeqNotFound"
    using inst(2) [of 1500] inst(2) [of 2500] inst(2) [of 3500] inst(1) [of 5000] inst(2) [of 500]
      idx entries0 f(3,4) fl
    by simp_all
  have useg: "files world_unrotated ''datastore/100/100/current.db'' =
      Some (enc_line 5000 ''hello'' @ NL # [])"
    by (simp add: world_unrotated_def enc_line_def itoa_examples)
  have uf: "FOpen ''datastore/100/100/current.db'' \<notin> faults world_unrotated"
    "FRead ''datastore/100/100/current.db'' \<notin> faults world_unrotated"
    by (simp_all add: world_unrotated_def world0_def)
  have none: "files world_unrotated ''datastore/100/100/archive.index'' = None"
    by (simp add: world_unrotated_def)
  have sixth: "fst (GetArchivedFileBySeq storer0 world_unrotated ''100/100'' 500) = Inl ErrNotExist"
    using GetArchivedFileBySeq_floor_lookup [OF current0 [symmetric] index0 [symmetric] useg nl uf,
        THEN conjunct2, THEN conjunct2, THEN conjunct1, of 500] none
    by simp
  show ?thesis
    by (intro conjI five sixth)
qed

text \<open>
  Claim C1 as stated fails on a partition that has not rotated yet: it has a current
  segment and no \<open>archive.index\<close>. For a sequence below the first of the current
  segment no entry qualifies, and the result is the error of opening the index, not
  \<open>ErrSeqNotFound\<close>.
\<close>

theorem lookup_unrotated_counterexample:
  "files world_unrotated ''datastore/100/100/archive.index'' = None \<and>
   fst (GetArchivedFileBySeq storer0 world_unrotated ''100/100'' 500) = Inl ErrNotExist \<and>
   fst (GetArchivedFileBySeq storer0 world_unrotated ''100/100'' 500) \<noteq> Inl ErrSeqNotFound"
proof -
  have seg: "files world_unrotated ''datastore/100/100/current.db'' =
      Some (enc_line 5000 ''hello'' @ NL # [])"
    by (simp add: world_unrotated_def enc_line_def itoa_examples)
  have nl: "NL \<notin> set ''hello''" by simp
  have f: "FOpen ''datastore/100/100/current.db'' \<notin> faults world_unrotated"
    "FRead ''datastore/100/100/current.db'' \<notin> faults world_unrotated"
    by (simp_all add: world_unrotated_def world0_def)
  have lt: "(500 :: 64 word) < 5000" by simp
  have none: "files world_unrotated ''datastore/100/100/archive.index'' = None"
    by (simp add: world_unrotated_def)
  have "fst (GetArchivedFileBySeq storer0 world_unrotated ''100/100'' 500) = Inl ErrNotExist"
    by (rule GetArchivedFileBySeq_index_errors(1)
        [OF current0 [symmetric] index0 [symmetric] seg nl f lt none])
  then show ?thesis
    using none by simp
qed

section \<open>Errors of the parts\<close>

lemma parse_digits_error: "parse_digits acc x = Inl e \<Longrightarrow> e = ErrSyntax \<or> e = ErrRange"
  by (induction x arbitrary: acc) (auto split: option.splits if_splits)

lemma ParseUint_error: "ParseUint x = Inl e \<Longrightarrow> e = ErrSyntax \<or> e = ErrRange"
  by (auto simp: ParseUint_def split: if_splits sum.splits dest: parse_digits_error)

lemma index_scan_error: "index_scan s a ls = Inl e \<Longrightarrow> e = Panic"
  by (induction ls arbitrary: a) (auto simp: index_def Let_def split: sum.splits if_splits)

lemma hd_SplitN2: "index (SplitN2 l) 0 = Inr (hd (SplitN2 l))"
  by (simp add: index_def SplitN2_def)

lemma getFirstSeqFromFile_cases:
  "getFirstSeqFromFile w f =
     ((case files w f of
         None \<Rightarrow> Inl ErrNotExist
       | Some c \<Rightarrow>
           if FOpen f \<in> faults w \<or> FRead f \<in> faults w then Inl ErrIO
           else if NL \<notin> set c then Inl EOF
           else Inr (hd (SplitN2 (takeWhile (\<lambda>x. x \<noteq> NL) c @ [NL])))),
      log_event (EvOpen f) w)"
  by (simp add: getFirstSeqFromFile_def os_Open_def ReadString_def hd_SplitN2 Let_def split: option.splits)

lemma split_first_line: "NL \<in> set c \<Longrightarrow> c = takeWhile (\<lambda>x. x \<noteq> NL) c @ NL # tl (dropWhile (\<lambda>x. x \<noteq> NL) c)"
proof -
  assume a: "NL \<in> set c"
  then have "dropWhile (\<lambda>x. x \<noteq> NL) c \<noteq> []" by (simp add: dropWhile_eq_Nil_conv)
  moreover have "hd (dropWhile (\<lambda>x. x \<noteq> NL) c) = NL"
    using a hd_dropWhile [of "\<lambda>x. x \<noteq> NL" c] by (simp add: dropWhile_eq_Nil_conv)
  ultimately have "dropWhile (\<lambda>x. x \<noteq> NL) c = NL # tl (dropWhile (\<lambda>x. x \<noteq> NL) c)"
    by (cases "dropWhile (\<lambda>x. x \<noteq> NL) c") auto
  then show ?thesis
    using takeWhile_dropWhile_id [of "\<lambda>x. x \<noteq> NL" c] by metis
qed

section \<open>Errors of the lookup\<close>

text \<open>
  Claim C9. When the current segment of the partition is missing, cannot be opened or
  read, is empty or has no complete first line, or when the first field of its first
  line is no unsigned integer, \<open>GetArchivedFileBySeq\<close> returns that error and the
  only call it has made is the opening of the current segment: the archive index is
  not opened, whatever it holds. And when \<open>GetArchivedFileBySeq\<close> returns
  \<open>ErrSeqNotFound\<close>, the first sequence of the current segment was read and parsed,
  and the requested sequence is below it.
\<close>

theorem GetArchivedFileBySeq_current_errors:
  assumes cur: "currentFile = path_Join [path_Join [datastore sr, dstPath], DefaultCurrentDB]"
  shows "(files w currentFile = None \<longrightarrow>
            fst (GetArchivedFileBySeq sr w dstPath s) = Inl ErrNotExist \<and>
            trace (snd (GetArchivedFileBySeq sr w dstPath s)) = trace w @ [EvOpen currentFile]) \<and>
         (files w currentFile = Some c \<longrightarrow> (FOpen currentFile \<in> faults w \<or> FRead currentFile \<in> faults w) \<longrightarrow>
            fst (GetArchivedFileBySeq sr w dstPath s) = Inl ErrIO \<and>
            trace (snd (GetArchivedFileBySeq sr w dstPath s)) = trace w @ [EvOpen currentFile]) \<and>
         (files w currentFile = Some c \<longrightarrow> FOpen currentFile \<notin> faults w \<longrightarrow> FRead currentFile \<notin> faults w \<longrightarrow>
            NL \<notin> set c \<longrightarrow>
            fst (GetArchivedFileBySeq sr w dstPath s) = Inl EOF \<and>
            trace (snd (GetArchivedFileBySeq sr w dstPath s)) = trace w @ [EvOpen currentFile]) \<and>
         (files w currentFile = Some (l @ NL # rest) \<longrightarrow> NL \<notin> set l \<longrightarrow>
            FOpen currentFile \<notin> faults w \<longrightarrow> FRead currentFile \<notin> faults w \<longrightarrow>
            ParseUint (hd (SplitN2 (l @ [NL]))) = Inl e \<longrightarrow>
            fst (GetArchivedFileBySeq sr w dstPath s) = Inl e \<and>
            trace (snd (GetArchivedFileBySeq sr w dstPath s)) = trace w @ [EvOpen currentFile]) \<and>
         (fst (GetArchivedFileBySeq sr w dstPath s) = Inl ErrSeqNotFound \<longrightarrow>
            (\<exists>l' rest' C. files w currentFile = Some (l' @ NL # rest') \<and> NL \<notin> set l' \<and>
               ParseUint (hd (SplitN2 (l' @ [NL]))) = Inr C \<and> s < C))"
proof (intro conjI impI)
  assume "files w currentFile = None"
  then show "fst (GetArchivedFileBySeq sr w dstPath s) = Inl ErrNotExist"
    and "trace (snd (GetArchivedFileBySeq sr w dstPath s)) = trace w @ [EvOpen currentFile]"
    by (simp_all add: GetArchivedFileBySeq_def cur [symmetric] getFirstSeqFromFile_cases)
next
  assume "files w currentFile = Some c" "FOpen currentFile \<in> faults w \<or> FRead currentFile \<in> faults w"
  then show "fst (GetArchivedFileBySeq sr w dstPath s) = Inl ErrIO"
    and "trace (snd (GetArchivedFileBySeq sr w dstPath s)) = trace w @ [EvOpen currentFile]"
    by (simp_all add: GetArchivedFileBySeq_def cur [symmetric] getFirstSeqFromFile_cases)
next
  assume "files w currentFile = Some c" "FOpen currentFile \<notin> faults w" "FRead currentFile \<notin> faults w"
    "NL \<notin> set c"
  then show "fst (GetArchivedFileBySeq sr w dstPath s) = Inl EOF"
    and "trace (snd (GetArchivedFileBySeq sr w dstPath s)) = trace w @ [EvOpen currentFile]"
    by (simp_all add: GetArchivedFileBySeq_def cur [symmetric] getFirstSeqFromFile_cases)
next
  assume "files w currentFile = Some (l @ NL # rest)" "NL \<notin> set l"
    "FOpen currentFile \<notin> faults w" "FRead currentFile \<notin> faults w"
    "ParseUint (hd (SplitN2 (l @ [NL]))) = Inl e"
  then show "fst (GetArchivedFileBySeq sr w dstPath s) = Inl e"
    and "trace (snd (GetArchivedFileBySeq sr w dstPath s)) = trace w @ [EvOpen currentFile]"
    by (simp_all add: GetArchivedFileBySeq_def cur [symmetric] getFirstSeqFromFile_cases takeWhile_sep)
next
  assume nf: "fst (GetArchivedFileBySeq sr w dstPath s) = Inl ErrSeqNotFound"
  let ?first = "fst (getFirstSeqFromFile w currentFile)"
  obtain c' where c': "files w currentFile = Some c'"
    using nf by (cases "files w currentFile")
      (auto simp: GetArchivedFileBySeq_def cur [symmetric] getFirstSeqFromFile_cases)
  have ok: "FOpen currentFile \<notin> faults w \<and> FRead currentFile \<notin> faults w \<and> NL \<in> set c'"
    using nf c'
    by (auto simp: GetArchivedFileBySeq_def cur [symmetric] getFirstSeqFromFile_cases
        split: if_splits)
  let ?l = "takeWhile (\<lambda>x. x \<noteq> NL) c'"
  have shape: "c' = ?l @ NL # tl (dropWhile (\<lambda>x. x \<noteq> NL) c')"
    using ok by (simp add: split_first_line [symmetric])
  have nl: "NL \<notin> set ?l" by (auto dest: set_takeWhileD)
  obtain C where C: "ParseUint (hd (SplitN2 (?l @ [NL]))) = Inr C"
    using nf c' ok
    by (cases "ParseUint (hd (SplitN2 (?l @ [NL])))")
      (auto simp: GetArchivedFileBySeq_def cur [symmetric] getFirstSeqFromFile_cases
        dest: ParseUint_error)
  have "s < C"
    using nf c' ok C
    by (auto simp: GetArchivedFileBySeq_def cur [symmetric] getFirstSeqFromFile_cases
        split: if_splits)
  then show "\<exists>l' rest' C. files w currentFile = Some (l' @ NL # rest') \<and> NL \<notin> set l' \<and>
               ParseUint (hd (SplitN2 (l' @ [NL]))) = Inr C \<and> s < C"
    using c' shape nl C by metis
qed

lemmas lookup_defs = GetArchivedFileBySeq_def getFirstSeqFromFile_def os_Open_def ReadString_def
  SplitN2_def index_def ParseUint_def digit_val_def ScanLines_def MaxScanTokenSize_def dropCR_def
  log_event_def Let_def

lemma lookup_500_world0:
  "fst (GetArchivedFileBySeq storer0 world0 ''100/100'' 500) = Inl ErrSeqNotFound"
  by (simp add: lookup_defs current0 index0 world0_def)

theorem GetArchivedFileBySeq_current_errors_witness:
  "files world_missing ''datastore/100/100/archive.index'' =
      Some (index_file [(1001, ''A''), (2001, ''B''), (3001, ''C'')]) \<and>
   fst (GetArchivedFileBySeq storer0 world_missing ''100/100'' 1500) = Inl ErrNotExist \<and>
   trace (snd (GetArchivedFileBySeq storer0 world_missing ''100/100'' 1500)) =
      [EvOpen ''datastore/100/100/current.db''] \<and>
   fst (GetArchivedFileBySeq storer0 world_unreadable ''100/100'' 1500) = Inl ErrIO \<and>
   trace (snd (GetArchivedFileBySeq storer0 world_unreadable ''100/100'' 1500)) =
      [EvOpen ''datastore/100/100/current.db''] \<and>
   fst (GetArchivedFileBySeq storer0 world_empty ''100/100'' 1500) = Inl EOF \<and>
   trace (snd (GetArchivedFileBySeq storer0 world_empty ''100/100'' 1500)) =
      [EvOpen ''datastore/100/100/current.db''] \<and>
   fst (GetArchivedFileBySeq storer0 world_garbled ''100/100'' 1500) = Inl ErrSyntax \<and>
   trace (snd (GetArchivedFileBySeq storer0 world_garbled ''100/100'' 1500)) =
      [EvOpen ''datastore/100/100/current.db''] \<and>
   (\<exists>l rest C. files world0 ''datastore/100/100/current.db'' = Some (l @ NL # rest) \<and>
      NL \<notin> set l \<and> ParseUint (hd (SplitN2 (l @ [NL]))) = Inr C \<and> 500 < C)"
proof -
  note inst = GetArchivedFileBySeq_current_errors [OF current0 [symmetric]]
  have idx: "files world_missing ''datastore/100/100/archive.index'' =
      Some (index_file [(1001, ''A''), (2001, ''B''), (3001, ''C'')])"
    by (simp add: world_missing_def world0_def index_file_def enc_line_def itoa_examples)
  have garbled: "ParseUint (hd (SplitN2 (''abc:x'' @ [NL]))) = Inl ErrSyntax"
    by (simp add: SplitN2_def ParseUint_def digit_val_def)
  have a: "fst (GetArchivedFileBySeq storer0 world_missing ''100/100'' 1500) = Inl ErrNotExist \<and>
      trace (snd (GetArchivedFileBySeq storer0 world_missing ''100/100'' 1500)) =
      [EvOpen ''datastore/100/100/current.db'']"
    using inst [THEN conjunct1, of world_missing 1500]
    by (simp add: world_missing_def world0_def)
  have b: "fst (GetArchivedFileBySeq storer0 world_unreadable ''100/100'' 1500) = Inl ErrIO \<and>
      trace (snd (GetArchivedFileBySeq storer0 world_unreadable ''100/100'' 1500)) =
      [EvOpen ''datastore/100/100/current.db'']"
    using inst [THEN conjunct2, THEN conjunct1, of world_unreadable "''5000:hello'' @ [NL]" 1500]
    by (simp add: world_unreadable_def world0_def)
  have c: "fst (GetArchivedFileBySeq storer0 world_empty ''100/100'' 1500) = Inl EOF \<and>
      trace (snd (GetArchivedFileBySeq storer0 world_empty ''100/100'' 1500)) =
      [EvOpen ''datastore/100/100/current.db'']"
    using inst [THEN conjunct2, THEN conjunct2, THEN conjunct1, of world_empty "[]" 1500]
    by (simp add: world_empty_def world0_def)
  have d: "fst (GetArchivedFileBySeq storer0 world_garbled ''100/100'' 1500) = Inl ErrSyntax \<and>
      trace (snd (GetArchivedFileBySeq storer0 world_garbled ''100/100'' 1500)) =
      [EvOpen ''datastore/100/100/current.db'']"
    using inst [THEN conjunct2, THEN conjunct2, THEN conjunct2, THEN conjunct1,
        of world_garbled "''abc:x''" "[]" ErrSyntax 1500] garbled
    by (simp add: world_garbled_def world0_def)
  have e: "\<exists>l rest C. files world0 ''datastore/100/100/current.db'' = Some (l @ NL # rest) \<and>
      NL \<notin> set l \<and> ParseUint (hd (SplitN2 (l @ [NL]))) = Inr C \<and> 500 < C"
    using inst [THEN conjunct2, THEN conjunct2, THEN conjunct2, THEN conjunct2, of world0 500]
      lookup_500_world0
    by simp
  show ?thesis using idx a b c d e by simp
qed

section \<open>The archival handler\<close>

lemma SplitN2_job: "COLON \<notin> set sq \<Longrightarrow> SplitN2 (sq @ COLON # pth) = [sq, pth]"
  by (simp add: SplitN2_def takeWhile_sep dropWhile_sep)

text \<open>
  Claim C10. When reading the segment file named in the job reports that the file does
  not exist, the handler acknowledges the message at once and returns: the world is
  left as it was but for the two calls in the trace, so nothing is uploaded and the
  index is not touched. The read reports this for an absent path whose read has no
  other fault; the statement is made for the worlds in which no parent of the path is
  a regular file. Every other error of the read, on a file that exists or on an absent
  path (a parent that is a regular file, no permission), ends in a negative
  acknowledgement and nothing else.
\<close>

theorem msgHandler_missing_segment:
  assumes job: "Data m = sq @ '':'' @ pth" "COLON \<notin> set sq"
  shows "(files w pth = None \<longrightarrow> FRead pth \<notin> faults w \<longrightarrow> \<not> below_file w pth \<longrightarrow>
            msgHandler u w m = (Inr (), w\<lparr>trace := trace w @ [EvReadFile pth, EvAck (Data m)]\<rparr>)) \<and>
         (FRead pth \<in> faults w \<longrightarrow>
            msgHandler u w m = (Inr (), w\<lparr>trace := trace w @ [EvReadFile pth, EvNak (Data m)]\<rparr>)) \<and>
         (fst (os_ReadFile w pth) = Inl ErrNotExist \<longrightarrow>
            msgHandler u w m = (Inr (), w\<lparr>trace := trace w @ [EvReadFile pth, EvAck (Data m)]\<rparr>)) \<and>
         (fst (os_ReadFile w pth) = Inl e \<longrightarrow> e \<noteq> ErrNotExist \<longrightarrow>
            msgHandler u w m = (Inr (), w\<lparr>trace := trace w @ [EvReadFile pth, EvNak (Data m)]\<rparr>))"
proof -
  have split: "SplitN2 (Data m) = [sq, pth]"
    using job by (simp add: SplitN2_job)
  show ?thesis
    by (cases "files w pth")
      (auto simp add: msgHandler_def split index_def os_ReadFile_def m_Ack_def m_Nak_def
        log_event_def Let_def)
qed

lemmas handler_defs = msgHandler_def saveFile_def Uploader_updateIndex_def os_ReadFile_def
  os_OpenFile_def file_WriteString_def os_RemoveAll_def m_Ack_def m_Nak_def log_event_def
  index_def Let_def

text \<open>
  Claim C7. For a job \<open>sq:pth\<close> whose segment file can be read, the handler reads the
  file, uploads its bytes under the key \<open>category/pth\<close> with the rule that lets all
  users read, appends the line \<open>sq:url\<close> to \<open>archive.index\<close> in the directory of the
  segment, removes the segment file and then acknowledges, in this order. When the
  upload fails (copying, closing, or building the URL), when the index cannot be
  opened or written, or when the removal fails, the handler stops there and negatively
  acknowledges; the trace then holds no acknowledgement. A failure before the index is
  opened leaves every file as it was.
\<close>

theorem msgHandler_steps:
  assumes job: "Data m = sq @ '':'' @ pth" "COLON \<notin> set sq"
    and seg: "files w pth = Some content" "FRead pth \<notin> faults w"
    and key: "key = bucketCategory u @ ''/'' @ pth"
    and idx: "idx = path_Join [path_Dir pth, ''archive.index'']"
    and acl: "acl = [ACLRule AllUsers RoleReader]"
    and old: "old = (case files w idx of None \<Rightarrow> [] | Some c \<Rightarrow> c)"
  shows
    "(FUploadCopy \<notin> faults w \<longrightarrow> FUploadClose \<notin> faults w \<longrightarrow>
      url_escape w (bucketName u @ ''/'' @ key) = Some p \<longrightarrow>
      FOpen idx \<notin> faults w \<longrightarrow> FWrite idx \<notin> faults w \<longrightarrow> FRemove pth \<notin> faults w \<longrightarrow>
        fst (msgHandler u w m) = Inr () \<and>
        trace (snd (msgHandler u w m)) =
          trace w @ [EvReadFile pth, EvUpload (bucketName u) key content acl, EvOpenFile idx,
                     EvWriteString idx (sq @ '':'' @ ''https://'' @ p @ [NL]),
                     EvRemoveAll pth, EvAck (Data m)] \<and>
        objects (snd (msgHandler u w m)) (bucketName u, key) = Some (content, acl) \<and>
        files (snd (msgHandler u w m)) =
          (\<lambda>q. if q = pth \<or> prefix (pth @ ''/'') q then None
                else ((files w)(idx \<mapsto> old @ sq @ '':'' @ ''https://'' @ p @ [NL])) q)) \<and>
     (FUploadCopy \<in> faults w \<or> FUploadClose \<in> faults w \<or>
      url_escape w (bucketName u @ ''/'' @ key) = None \<longrightarrow>
        fst (msgHandler u w m) = Inr () \<and>
        trace (snd (msgHandler u w m)) =
          trace w @ [EvReadFile pth, EvUpload (bucketName u) key content acl, EvNak (Data m)] \<and>
        files (snd (msgHandler u w m)) = files w) \<and>
     (FUploadCopy \<notin> faults w \<longrightarrow> FUploadClose \<notin> faults w \<longrightarrow>
      url_escape w (bucketName u @ ''/'' @ key) = Some p \<longrightarrow> FOpen idx \<in> faults w \<longrightarrow>
        fst (msgHandler u w m) = Inr () \<and>
        trace (snd (msgHandler u w m)) =
          trace w @ [EvReadFile pth, EvUpload (bucketName u) key content acl, EvOpenFile idx,
                     EvNak (Data m)] \<and>
        files (snd (msgHandler u w m)) = files w) \<and>
     (FUploadCopy \<notin> faults w \<longrightarrow> FUploadClose \<notin> faults w \<longrightarrow>
      url_escape w (bucketName u @ ''/'' @ key) = Some p \<longrightarrow>
      FOpen idx \<notin> faults w \<longrightarrow> FWrite idx \<in> faults w \<longrightarrow>
        fst (msgHandler u w m) = Inr () \<and>
        trace (snd (msgHandler u w m)) =
          trace w @ [EvReadFile pth, EvUpload (bucketName u) key content acl, EvOpenFile idx,
                     EvWriteString idx (sq @ '':'' @ ''https://'' @ p @ [NL]), EvNak (Data m)] \<and>
        files (snd (msgHandler u w m)) = (files w)(idx \<mapsto> old)) \<and>
     (FUploadCopy \<notin> faults w \<longrightarrow> FUploadClose \<notin> faults w \<longrightarrow>
      url_escape w (bucketName u @ ''/'' @ key) = Some p \<longrightarrow>
      FOpen idx \<notin> faults w \<longrightarrow> FWrite idx \<notin> faults w \<longrightarrow> FRemove pth \<in> faults w \<longrightarrow>
        fst (msgHandler u w m) = Inr () \<and>
        trace (snd (msgHandler u w m)) =
          trace w @ [EvReadFile pth, EvUpload (bucketName u) key content acl, EvOpenFile idx,
                     EvWriteString idx (sq @ '':'' @ ''https://'' @ p @ [NL]),
                     EvRemoveAll pth, EvNak (Data m)] \<and>
        files (snd (msgHandler u w m)) =
          (files w)(idx \<mapsto> old @ sq @ '':'' @ ''https://'' @ p @ [NL]))"
proof -
  have split: "SplitN2 (Data m) = [sq, pth]"
    using job by (simp add: SplitN2_job)
  show ?thesis
    unfolding key idx acl old
    using seg
    by (intro conjI impI)
      (auto simp add: handler_defs split split: option.splits)
qed

lemma index_job0: "path_Join [path_Dir ''datastore/100/100/MSG_1001.db'', ''archive.index''] =
    ''datastore/100/100/archive.index''"
  by (simp add: path_defs)

lemma job0_split: "Data job0 = ''1001'' @ '':'' @ ''datastore/100/100/MSG_1001.db'' \<and> COLON \<notin> set ''1001''"
  by (simp add: job0_def)

theorem msgHandler_missing_segment_witness:
  "msgHandler uploader0 (world_job\<lparr>files := Map.empty\<rparr>) job0 =
     (Inr (), world_job\<lparr>files := Map.empty,
                         trace := [EvReadFile ''datastore/100/100/MSG_1001.db'',
                                   EvAck ''1001:datastore/100/100/MSG_1001.db'']\<rparr>) \<and>
   msgHandler uploader0 (world_job\<lparr>faults := {FRead ''datastore/100/100/MSG_1001.db''}\<rparr>) job0 =
     (Inr (), world_job\<lparr>faults := {FRead ''datastore/100/100/MSG_1001.db''},
                         trace := [EvReadFile ''datastore/100/100/MSG_1001.db'',
                                   EvNak ''1001:datastore/100/100/MSG_1001.db'']\<rparr>) \<and>
   below_file (world_job\<lparr>files := [''datastore/100'' \<mapsto> ''x''],
                          faults := {FRead ''datastore/100/100/MSG_1001.db''}\<rparr>)
     ''datastore/100/100/MSG_1001.db'' \<and>
   msgHandler uploader0 (world_job\<lparr>files := [''datastore/100'' \<mapsto> ''x''],
                                    faults := {FRead ''datastore/100/100/MSG_1001.db''}\<rparr>) job0 =
     (Inr (), world_job\<lparr>files := [''datastore/100'' \<mapsto> ''x''],
                         faults := {FRead ''datastore/100/100/MSG_1001.db''},
                         trace := [EvReadFile ''datastore/100/100/MSG_1001.db'',
                                   EvNak ''1001:datastore/100/100/MSG_1001.db'']\<rparr>)"
proof -
  note inst = msgHandler_missing_segment [OF job0_split [THEN conjunct1] job0_split [THEN conjunct2]]
  have absent: "msgHandler uploader0 (world_job\<lparr>files := Map.empty\<rparr>) job0 =
     (Inr (), world_job\<lparr>files := Map.empty,
                         trace := [EvReadFile ''datastore/100/100/MSG_1001.db'',
                                   EvAck ''1001:datastore/100/100/MSG_1001.db'']\<rparr>)"
    using inst [THEN conjunct1, of "world_job\<lparr>files := Map.empty\<rparr>" uploader0]
    by (simp add: world_job_def job0_def below_file_def parents_def)
  have unreadable: "msgHandler uploader0
       (world_job\<lparr>faults := {FRead ''datastore/100/100/MSG_1001.db''}\<rparr>) job0 =
     (Inr (), world_job\<lparr>faults := {FRead ''datastore/100/100/MSG_1001.db''},
                         trace := [EvReadFile ''datastore/100/100/MSG_1001.db'',
                                   EvNak ''1001:datastore/100/100/MSG_1001.db'']\<rparr>)"
    using inst [THEN conjunct2, THEN conjunct1,
        of "world_job\<lparr>faults := {FRead ''datastore/100/100/MSG_1001.db''}\<rparr>" uploader0]
    by (simp add: world_job_def job0_def)
  have parent: "below_file (world_job\<lparr>files := [''datastore/100'' \<mapsto> ''x''],
                          faults := {FRead ''datastore/100/100/MSG_1001.db''}\<rparr>)
     ''datastore/100/100/MSG_1001.db''"
    by (simp add: below_file_def parents_def)
  have notdir: "msgHandler uploader0 (world_job\<lparr>files := [''datastore/100'' \<mapsto> ''x''],
                                    faults := {FRead ''datastore/100/100/MSG_1001.db''}\<rparr>) job0 =
     (Inr (), world_job\<lparr>files := [''datastore/100'' \<mapsto> ''x''],
                         faults := {FRead ''datastore/100/100/MSG_1001.db''},
                         trace := [EvReadFile ''datastore/100/100/MSG_1001.db'',
                                   EvNak ''1001:datastore/100/100/MSG_1001.db'']\<rparr>)"
    using inst [THEN conjunct2, THEN conjunct1,
        of "world_job\<lparr>files := [''datastore/100'' \<mapsto> ''x''],
                      faults := {FRead ''datastore/100/100/MSG_1001.db''}\<rparr>" uploader0]
    by (simp add: world_job_def job0_def)
  show ?thesis
    by (intro conjI absent unreadable parent notdir)
qed

theorem msgHandler_steps_witness:
  "trace (snd (msgHandler uploader0 world_job job0)) =
     [EvReadFile ''datastore/100/100/MSG_1001.db'',
      EvUpload ''example.com'' ''msg-store/datastore/100/100/MSG_1001.db''
        (''1001:a'' @ [NL] @ ''1002:b'' @ [NL]) [ACLRule AllUsers RoleReader],
      EvOpenFile ''datastore/100/100/archive.index'',
      EvWriteString ''datastore/100/100/archive.index''
        (''1001:https://example.com/msg-store/datastore/100/100/MSG_1001.db'' @ [NL]),
      EvRemoveAll ''datastore/100/100/MSG_1001.db'',
      EvAck ''1001:datastore/100/100/MSG_1001.db''] \<and>
   files (snd (msgHandler uploader0 world_job job0)) ''datastore/100/100/archive.index'' =
     Some (''1001:https://example.com/msg-store/datastore/100/100/MSG_1001.db'' @ [NL]) \<and>
   files (snd (msgHandler uploader0 world_job job0)) ''datastore/100/100/MSG_1001.db'' = None \<and>
   trace (snd (msgHandler uploader0 (world_job\<lparr>faults := {FUploadClose}\<rparr>) job0)) =
     [EvReadFile ''datastore/100/100/MSG_1001.db'',
      EvUpload ''example.com'' ''msg-store/datastore/100/100/MSG_1001.db''
        (''1001:a'' @ [NL] @ ''1002:b'' @ [NL]) [ACLRule AllUsers RoleReader],
      EvNak ''1001:datastore/100/100/MSG_1001.db''] \<and>
   files (snd (msgHandler uploader0 (world_job\<lparr>faults := {FUploadClose}\<rparr>) job0)) = files world_job \<and>
   trace (snd (msgHandler uploader0
       (world_job\<lparr>faults := {FOpen ''datastore/100/100/archive.index''}\<rparr>) job0)) =
     [EvReadFile ''datastore/100/100/MSG_1001.db'',
      EvUpload ''example.com'' ''msg-store/datastore/100/100/MSG_1001.db''
        (''1001:a'' @ [NL] @ ''1002:b'' @ [NL]) [ACLRule AllUsers RoleReader],
      EvOpenFile ''datastore/100/100/archive.index'',
      EvNak ''1001:datastore/100/100/MSG_1001.db''] \<and>
   trace (snd (msgHandler uploader0
       (world_job\<lparr>faults := {FWrite ''datastore/100/100/archive.index''}\<rparr>) job0)) =
     [EvReadFile ''datastore/100/100/MSG_1001.db'',
      EvUpload ''example.com'' ''msg-store/datastore/100/100/MSG_1001.db''
        (''1001:a'' @ [NL] @ ''1002:b'' @ [NL]) [ACLRule AllUsers RoleReader],
      EvOpenFile ''datastore/100/100/archive.index'',
      EvWriteString ''datastore/100/100/archive.index''
        (''1001:https://example.com/msg-store/datastore/100/100/MSG_1001.db'' @ [NL]),
      EvNak ''1001:datastore/100/100/MSG_1001.db''] \<and>
   trace (snd (msgHandler uploader0
       (world_job\<lparr>faults := {FRemove ''datastore/100/100/MSG_1001.db''}\<rparr>) job0)) =
     [EvReadFile ''datastore/100/100/MSG_1001.db'',
      EvUpload ''example.com'' ''msg-store/datastore/100/100/MSG_1001.db''
        (''1001:a'' @ [NL] @ ''1002:b'' @ [NL]) [ACLRule AllUsers RoleReader],
      EvOpenFile ''datastore/100/100/archive.index'',
      EvWriteString ''datastore/100/100/archive.index''
        (''1001:https://example.com/msg-store/datastore/100/100/MSG_1001.db'' @ [NL]),
      EvRemoveAll ''datastore/100/100/MSG_1001.db'',
      EvNak ''1001:datastore/100/100/MSG_1001.db'']"
proof -
  let ?pth = "''datastore/100/100/MSG_1001.db''"
  let ?idx = "''datastore/100/100/archive.index''"
  let ?content = "''1001:a'' @ [NL] @ ''1002:b'' @ [NL]"
  let ?p = "''example.com/msg-store/datastore/100/100/MSG_1001.db''"
  note steps = msgHandler_steps [OF job0_split [THEN conjunct1] job0_split [THEN conjunct2] _ _ refl
      index_job0 [symmetric] refl refl, where u = uploader0 and content = ?content and p = ?p]
  show ?thesis
    using steps [where w = world_job]
      steps [where w = "world_job\<lparr>faults := {FUploadClose}\<rparr>"]
      steps [where w = "world_job\<lparr>faults := {FOpen ?idx}\<rparr>"]
      steps [where w = "world_job\<lparr>faults := {FWrite ?idx}\<rparr>"]
      steps [where w = "world_job\<lparr>faults := {FRemove ?pth}\<rparr>"]
    by (simp add: world_job_def uploader0_def job0_def)
qed

section \<open>Redelivery of an archival job\<close>

lemma msgHandler_complete:
  assumes job: "Data m = sq @ '':'' @ pth" "COLON \<notin> set sq"
    and seg: "files w pth = Some content" "FRead pth \<notin> faults w"
    and up: "FUploadCopy \<notin> faults w" "FUploadClose \<notin> faults w"
      "url_escape w (bucketName u @ ''/'' @ bucketCategory u @ ''/'' @ pth) = Some p"
    and ix: "FOpen (path_Join [path_Dir pth, ''archive.index'']) \<notin> faults w"
      "FWrite (path_Join [path_Dir pth, ''archive.index'']) \<notin> faults w"
  shows "files (snd (msgHandler u w m)) =
           (if FRemove pth \<in> faults w
            then (files w)(path_Join [path_Dir pth, ''archive.index''] \<mapsto>
                   (case files w (path_Join [path_Dir pth, ''archive.index'']) of
                      None \<Rightarrow> [] | Some c \<Rightarrow> c) @ sq @ '':'' @ ''https://'' @ p @ [NL])
            else (\<lambda>q. if q = pth \<or> prefix (pth @ ''/'') q then None
                  else ((files w)(path_Join [path_Dir pth, ''archive.index''] \<mapsto>
                   (case files w (path_Join [path_Dir pth, ''archive.index'']) of
                      None \<Rightarrow> [] | Some c \<Rightarrow> c) @ sq @ '':'' @ ''https://'' @ p @ [NL])) q))"
    and "faults (snd (msgHandler u w m)) = faults w"
    and "url_escape (snd (msgHandler u w m)) = url_escape w"
proof -
  have split: "SplitN2 (Data m) = [sq, pth]"
    using job by (simp add: SplitN2_job)
  show "files (snd (msgHandler u w m)) =
           (if FRemove pth \<in> faults w
            then (files w)(path_Join [path_Dir pth, ''archive.index''] \<mapsto>
                   (case files w (path_Join [path_Dir pth, ''archive.index'']) of
                      None \<Rightarrow> [] | Some c \<Rightarrow> c) @ sq @ '':'' @ ''https://'' @ p @ [NL])
            else (\<lambda>q. if q = pth \<or> prefix (pth @ ''/'') q then None
                  else ((files w)(path_Join [path_Dir pth, ''archive.index''] \<mapsto>
                   (case files w (path_Join [path_Dir pth, ''archive.index'']) of
                      None \<Rightarrow> [] | Some c \<Rightarrow> c) @ sq @ '':'' @ ''https://'' @ p @ [NL])) q))"
    using seg up ix by (auto simp add: handler_defs split split: option.splits)
  show "faults (snd (msgHandler u w m)) = faults w"
    using seg up ix by (auto simp add: handler_defs split split: option.splits)
  show "url_escape (snd (msgHandler u w m)) = url_escape w"
    using seg up ix by (auto simp add: handler_defs split split: option.splits)
qed

lemma msgHandler_absent:
  assumes "Data m = sq @ '':'' @ pth" "COLON \<notin> set sq" "files w pth = None"
    "FRead pth \<notin> faults w"
  shows "msgHandler u w m = (Inr (), w\<lparr>trace := trace w @ [EvReadFile pth, EvAck (Data m)]\<rparr>)"
  using assms
  by (simp add: msgHandler_def SplitN2_job index_def os_ReadFile_def m_Ack_def log_event_def Let_def)

lemma floor_lookup_alt:
  "floor_lookup s es =
     (if takeWhile (\<lambda>e. fst e \<le> s) es = [] then Inl ErrSeqNotFound
      else Inr (snd (last (takeWhile (\<lambda>e. fst e \<le> s) es))))"
  by (simp add: floor_lookup_def split: list.splits)

lemma floor_lookup_duplicate: "floor_lookup s (es @ [e, e]) = floor_lookup s (es @ [e])"
proof (cases "\<forall>x\<in>set es. fst x \<le> s")
  case True
  then show ?thesis by (simp add: floor_lookup_alt takeWhile_append2)
next
  case False
  then obtain x where "x \<in> set es" "\<not> fst x \<le> s" by blast
  then show ?thesis by (simp add: floor_lookup_alt takeWhile_append1)
qed

text \<open>
  Claim C8, amended. A second run of the handler for the same job appends a second,
  identical line to the index only when the segment file is still there, as after a
  first run whose removal failed. After a first run that went through, the second run
  finds no file, acknowledges and leaves the index with the line once. A lookup over
  an index that ends with the line twice returns what it returns over the index that
  ends with the line once.
\<close>

theorem handler_redelivery:
  assumes job: "Data m = sq @ '':'' @ pth" "COLON \<notin> set sq"
    and seg: "files w pth = Some content" "FRead pth \<notin> faults w"
    and up: "FUploadCopy \<notin> faults w" "FUploadClose \<notin> faults w"
      "url_escape w (bucketName u @ ''/'' @ bucketCategory u @ ''/'' @ pth) = Some p"
    and idx: "idx = path_Join [path_Dir pth, ''archive.index'']"
    and ix: "FOpen idx \<notin> faults w" "FWrite idx \<notin> faults w" "idx \<noteq> pth" "\<not> prefix (pth @ ''/'') idx"
    and old: "old = (case files w idx of None \<Rightarrow> [] | Some c \<Rightarrow> c)"
    and line: "line = sq @ '':'' @ ''https://'' @ p @ [NL]"
    and cur: "currentFile = path_Join [path_Join [datastore sr, dstPath], DefaultCurrentDB]"
    and ind: "indexFile = path_Join [path_Join [datastore sr, dstPath], DefaultArchiveIndex]"
    and once: "files w1 currentFile = Some (enc_line C p0 @ NL # rest)" "NL \<notin> set p0"
      "FOpen currentFile \<notin> faults w1" "FRead currentFile \<notin> faults w1"
      "FOpen indexFile \<notin> faults w1" "FRead indexFile \<notin> faults w1"
      "files w1 indexFile = Some (index_file (es @ [e]))"
    and twice: "files w2 currentFile = Some (enc_line C p0 @ NL # rest)"
      "FOpen currentFile \<notin> faults w2" "FRead currentFile \<notin> faults w2"
      "FOpen indexFile \<notin> faults w2" "FRead indexFile \<notin> faults w2"
      "files w2 indexFile = Some (index_file (es @ [e, e]))"
    and wf: "list_all wf_entry (es @ [e])"
  shows
    "(FRemove pth \<notin> faults w \<longrightarrow>
        files (snd (msgHandler u w m)) idx = Some (old @ line) \<and>
        msgHandler u (snd (msgHandler u w m)) m =
          (Inr (), (snd (msgHandler u w m))\<lparr>trace := trace (snd (msgHandler u w m)) @
                                                 [EvReadFile pth, EvAck (Data m)]\<rparr>)) \<and>
     (FRemove pth \<in> faults w \<longrightarrow>
        files (snd (msgHandler u w m)) idx = Some (old @ line) \<and>
        files (snd (msgHandler u
                 ((snd (msgHandler u w m))\<lparr>faults := faults w - {FRemove pth}\<rparr>) m)) idx =
          Some (old @ line @ line)) \<and>
     fst (GetArchivedFileBySeq sr w2 dstPath s) = fst (GetArchivedFileBySeq sr w1 dstPath s)"
proof (intro conjI impI)
  note first = msgHandler_complete [OF job seg up ix(1,2) [unfolded idx], folded idx old line, simplified]
  {
    assume ok: "FRemove pth \<notin> faults w"
    show "files (snd (msgHandler u w m)) idx = Some (old @ line)"
      using first(1) ok ix(3,4) by simp
    have "files (snd (msgHandler u w m)) pth = None"
      using first(1) ok by simp
    moreover have "FRead pth \<notin> faults (snd (msgHandler u w m))"
      using first(2) seg(2) by simp
    ultimately show "msgHandler u (snd (msgHandler u w m)) m =
          (Inr (), (snd (msgHandler u w m))\<lparr>trace := trace (snd (msgHandler u w m)) @
                                                 [EvReadFile pth, EvAck (Data m)]\<rparr>)"
      by (rule msgHandler_absent [OF job])
  }
  {
    assume bad: "FRemove pth \<in> faults w"
    let ?w1 = "snd (msgHandler u w m)"
    let ?w1' = "?w1\<lparr>faults := faults w - {FRemove pth}\<rparr>"
    show one: "files ?w1 idx = Some (old @ line)"
      using first(1) bad by simp
    have seg': "files ?w1' pth = Some content" "FRead pth \<notin> faults ?w1'"
      using first(1) bad seg ix(3) by simp_all
    have up': "FUploadCopy \<notin> faults ?w1'" "FUploadClose \<notin> faults ?w1'"
      "url_escape ?w1' (bucketName u @ ''/'' @ bucketCategory u @ ''/'' @ pth) = Some p"
      using up first(3) by simp_all
    have ix': "FOpen (path_Join [path_Dir pth, ''archive.index'']) \<notin> faults ?w1'"
      "FWrite (path_Join [path_Dir pth, ''archive.index'']) \<notin> faults ?w1'"
      using ix(1,2) idx by simp_all
    have "files (snd (msgHandler u ?w1' m)) idx =
            (if idx = pth \<or> prefix (pth @ ''/'') idx then None
             else ((files ?w1')(idx \<mapsto> (case files ?w1' idx of None \<Rightarrow> [] | Some c \<Rightarrow> c) @ line)) idx)"
      using msgHandler_complete(1) [OF job seg' up' ix', folded idx line] by simp
    then show "files (snd (msgHandler u ?w1' m)) idx = Some (old @ line @ line)"
      using ix(3,4) one by simp
  }
  show "fst (GetArchivedFileBySeq sr w2 dstPath s) = fst (GetArchivedFileBySeq sr w1 dstPath s)"
  proof (cases "C \<le> s")
    case True
    then show ?thesis
      using GetArchivedFileBySeq_entries [OF cur ind once(1,2,3,4), of s]
        GetArchivedFileBySeq_entries [OF cur ind twice(1) once(2) twice(2,3), of s]
      by simp
  next
    case False
    have wf2: "list_all wf_entry (es @ [e, e])" using wf by simp
    show ?thesis
      using False wf wf2 once(5,6,7) twice(4,5,6)
        GetArchivedFileBySeq_entries [OF cur ind once(1,2,3,4), of s "es @ [e]"]
        GetArchivedFileBySeq_entries [OF cur ind twice(1) once(2) twice(2,3), of s "es @ [e, e]"]
      by (simp add: floor_lookup_duplicate)
  qed
qed

lemma world_done_files:
  "files world_done =
     (\<lambda>q. if q = ''datastore/100/100/MSG_1001.db'' \<or> prefix (''datastore/100/100/MSG_1001.db'' @ ''/'') q
           then None
           else ((files world_job)(''datastore/100/100/archive.index'' \<mapsto>
                   ''1001:https://example.com/msg-store/datastore/100/100/MSG_1001.db'' @ [NL])) q)"
proof -
  let ?pth = "''datastore/100/100/MSG_1001.db''"
  have seg: "files world_job ?pth = Some (''1001:a'' @ [NL] @ ''1002:b'' @ [NL])"
    "FRead ?pth \<notin> faults world_job"
    by (simp_all add: world_job_def)
  have up: "FUploadCopy \<notin> faults world_job" "FUploadClose \<notin> faults world_job"
    "url_escape world_job (bucketName uploader0 @ ''/'' @ bucketCategory uploader0 @ ''/'' @ ?pth) =
       Some ''example.com/msg-store/datastore/100/100/MSG_1001.db''"
    by (simp_all add: world_job_def uploader0_def)
  have ix: "FOpen (path_Join [path_Dir ?pth, ''archive.index'']) \<notin> faults world_job"
    "FWrite (path_Join [path_Dir ?pth, ''archive.index'']) \<notin> faults world_job"
    by (simp_all add: world_job_def)
  have none: "files world_job ''datastore/100/100/archive.index'' = None"
    "FRemove ?pth \<notin> faults world_job"
    by (simp_all add: world_job_def)
  show ?thesis
    unfolding world_done_def
    using msgHandler_complete(1) [OF job0_split [THEN conjunct1] job0_split [THEN conjunct2] seg up ix]
    by (simp add: index_job0 none cong: if_cong)
qed

lemma world_done_faults: "faults world_done = {}"
proof -
  let ?pth = "''datastore/100/100/MSG_1001.db''"
  have seg: "files world_job ?pth = Some (''1001:a'' @ [NL] @ ''1002:b'' @ [NL])"
    "FRead ?pth \<notin> faults world_job"
    by (simp_all add: world_job_def)
  have up: "FUploadCopy \<notin> faults world_job" "FUploadClose \<notin> faults world_job"
    "url_escape world_job (bucketName uploader0 @ ''/'' @ bucketCategory uploader0 @ ''/'' @ ?pth) =
       Some ''example.com/msg-store/datastore/100/100/MSG_1001.db''"
    by (simp_all add: world_job_def uploader0_def)
  have ix: "FOpen (path_Join [path_Dir ?pth, ''archive.index'']) \<notin> faults world_job"
    "FWrite (path_Join [path_Dir ?pth, ''archive.index'']) \<notin> faults world_job"
    by (simp_all add: world_job_def)
  show ?thesis
    unfolding world_done_def
    using msgHandler_complete(2) [OF job0_split [THEN conjunct1] job0_split [THEN conjunct2] seg up ix]
    by (simp add: world_job_def)
qed

text \<open>
  Claim C8 as stated fails: after a first run without failure the segment file is
  gone, and the second run for the same job only reads and acknowledges; the index
  holds the line once, not twice.
\<close>

theorem handler_twice_counterexample:
  "files world_done ''datastore/100/100/archive.index'' =
     Some (''1001:https://example.com/msg-store/datastore/100/100/MSG_1001.db'' @ [NL]) \<and>
   msgHandler uploader0 world_done job0 =
     (Inr (), world_done\<lparr>trace := trace world_done @
                [EvReadFile ''datastore/100/100/MSG_1001.db'',
                 EvAck ''1001:datastore/100/100/MSG_1001.db'']\<rparr>) \<and>
   files (snd (msgHandler uploader0 world_done job0)) ''datastore/100/100/archive.index'' \<noteq>
     Some (''1001:https://example.com/msg-store/datastore/100/100/MSG_1001.db'' @ [NL] @
           ''1001:https://example.com/msg-store/datastore/100/100/MSG_1001.db'' @ [NL])"
proof -
  have gone: "files world_done ''datastore/100/100/MSG_1001.db'' = None"
    by (simp add: world_done_files)
  have second: "msgHandler uploader0 world_done job0 =
     (Inr (), world_done\<lparr>trace := trace world_done @
                [EvReadFile ''datastore/100/100/MSG_1001.db'', EvAck (Data job0)]\<rparr>)"
    by (rule msgHandler_absent [OF job0_split [THEN conjunct1] job0_split [THEN conjunct2] gone])
      (simp add: world_done_faults)
  show ?thesis
    by (simp add: second) (simp add: world_done_files job0_def)
qed

lemma world_retried_files:
  "files world_retried =
     (\<lambda>q. if q = ''datastore/100/100/MSG_1001.db'' \<or> prefix (''datastore/100/100/MSG_1001.db'' @ ''/'') q
           then None
           else ((files world_job)(''datastore/100/100/archive.index'' \<mapsto>
                   ''1001:https://example.com/msg-store/datastore/100/100/MSG_1001.db'' @ [NL] @
                   ''1001:https://example.com/msg-store/datastore/100/100/MSG_1001.db'' @ [NL])) q)"
  and world_retried_faults: "faults world_retried = {}"
proof -
  let ?pth = "''datastore/100/100/MSG_1001.db''"
  let ?w = "world_job\<lparr>faults := {FRemove ?pth}\<rparr>"
  let ?w1 = "(snd (msgHandler uploader0 ?w job0))\<lparr>faults := {}\<rparr>"
  have seg: "files ?w ?pth = Some (''1001:a'' @ [NL] @ ''1002:b'' @ [NL])" "FRead ?pth \<notin> faults ?w"
    by (simp_all add: world_job_def)
  have up: "FUploadCopy \<notin> faults ?w" "FUploadClose \<notin> faults ?w"
    "url_escape ?w (bucketName uploader0 @ ''/'' @ bucketCategory uploader0 @ ''/'' @ ?pth) =
       Some ''example.com/msg-store/datastore/100/100/MSG_1001.db''"
    by (simp_all add: world_job_def uploader0_def)
  have ix: "FOpen (path_Join [path_Dir ?pth, ''archive.index'']) \<notin> faults ?w"
    "FWrite (path_Join [path_Dir ?pth, ''archive.index'']) \<notin> faults ?w"
    by (simp_all add: world_job_def)
  note one = msgHandler_complete [OF job0_split [THEN conjunct1] job0_split [THEN conjunct2] seg up ix]
  have f1: "files (snd (msgHandler uploader0 ?w job0)) = (files world_job)(''datastore/100/100/archive.index'' \<mapsto>
              ''1001:https://example.com/msg-store/datastore/100/100/MSG_1001.db'' @ [NL])"
    using one(1) by (simp add: index_job0) (simp add: world_job_def)
  have seg1: "files ?w1 ?pth = Some (''1001:a'' @ [NL] @ ''1002:b'' @ [NL])" "FRead ?pth \<notin> faults ?w1"
    by (simp_all add: f1) (simp add: world_job_def)
  have up1: "FUploadCopy \<notin> faults ?w1" "FUploadClose \<notin> faults ?w1"
    "url_escape ?w1 (bucketName uploader0 @ ''/'' @ bucketCategory uploader0 @ ''/'' @ ?pth) =
       Some ''example.com/msg-store/datastore/100/100/MSG_1001.db''"
    using one(3) by (simp_all add: world_job_def uploader0_def)
  have ix1: "FOpen (path_Join [path_Dir ?pth, ''archive.index'']) \<notin> faults ?w1"
    "FWrite (path_Join [path_Dir ?pth, ''archive.index'']) \<notin> faults ?w1"
    by simp_all
  note two = msgHandler_complete [OF job0_split [THEN conjunct1] job0_split [THEN conjunct2] seg1 up1 ix1]
  show "files world_retried =
     (\<lambda>q. if q = ''datastore/100/100/MSG_1001.db'' \<or> prefix (''datastore/100/100/MSG_1001.db'' @ ''/'') q
           then None
           else ((files world_job)(''datastore/100/100/archive.index'' \<mapsto>
                   ''1001:https://example.com/msg-store/datastore/100/100/MSG_1001.db'' @ [NL] @
                   ''1001:https://example.com/msg-store/datastore/100/100/MSG_1001.db'' @ [NL])) q)"
    unfolding world_retried_def
    using two(1) by (simp add: index_job0 f1 cong: if_cong)
  show "faults world_retried = {}"
    unfolding world_retried_def using two(2) by simp
qed

theorem handler_redelivery_witness:
  "files world_done ''datastore/100/100/archive.index'' =
     Some (''1001:https://example.com/msg-store/datastore/100/100/MSG_1001.db'' @ [NL]) \<and>
   msgHandler uploader0 world_done job0 =
     (Inr (), world_done\<lparr>trace := trace world_done @
                [EvReadFile ''datastore/100/100/MSG_1001.db'',
                 EvAck ''1001:datastore/100/100/MSG_1001.db'']\<rparr>) \<and>
   files world_retried ''datastore/100/100/archive.index'' =
     Some (''1001:https://example.com/msg-store/datastore/100/100/MSG_1001.db'' @ [NL] @
           ''1001:https://example.com/msg-store/datastore/100/100/MSG_1001.db'' @ [NL]) \<and>
   fst (GetArchivedFileBySeq storer0 world_retried ''100/100'' 1500) =
     fst (GetArchivedFileBySeq storer0 world_done ''100/100'' 1500)"
proof -
  let ?pth = "''datastore/100/100/MSG_1001.db''"
  let ?idx = "''datastore/100/100/archive.index''"
  let ?cur = "''datastore/100/100/current.db''"
  let ?p = "''example.com/msg-store/datastore/100/100/MSG_1001.db''"
  let ?e = "(1001 :: 64 word, ''https://'' @ ?p)"
  have once: "files world_done ?cur = Some (enc_line 5000 ''hello'' @ NL # [])" "NL \<notin> set ''hello''"
    "FOpen ?cur \<notin> faults world_done" "FRead ?cur \<notin> faults world_done"
    "FOpen ?idx \<notin> faults world_done" "FRead ?idx \<notin> faults world_done"
    "files world_done ?idx = Some (index_file ([] @ [?e]))"
    by (simp_all add: world_done_files world_done_faults world_job_def enc_line_def index_file_def
        itoa_examples)
  have twice: "files world_retried ?cur = Some (enc_line 5000 ''hello'' @ NL # [])"
    "FOpen ?cur \<notin> faults world_retried" "FRead ?cur \<notin> faults world_retried"
    "FOpen ?idx \<notin> faults world_retried" "FRead ?idx \<notin> faults world_retried"
    "files world_retried ?idx = Some (index_file ([] @ [?e, ?e]))"
    by (simp_all add: world_retried_files world_retried_faults world_job_def enc_line_def index_file_def
        itoa_examples)
  have wf: "list_all wf_entry ([] @ [?e])"
    by (simp add: wf_entry_def enc_line_def itoa_examples MaxScanTokenSize_def)
  have distinct: "?idx \<noteq> ?pth" "\<not> prefix (?pth @ ''/'') ?idx" by simp_all
  have dj: "Data job0 = ''1001:datastore/100/100/MSG_1001.db''" by (simp add: job0_def)
  have wj: "files world_job ?pth = Some (''1001:a'' @ [NL] @ ''1002:b'' @ [NL])"
    "files world_job ?idx = None" "faults world_job = {}"
    "url_escape world_job = Some" "bucketName uploader0 = ''example.com''"
    "bucketCategory uploader0 = ''msg-store''"
    by (simp_all add: world_job_def uploader0_def)
  note inst = handler_redelivery [OF job0_split [THEN conjunct1] job0_split [THEN conjunct2] _ _ _ _ _
      index_job0 [symmetric] _ _ distinct refl refl current0 [symmetric] index0 [symmetric]
      once twice wf, where u = uploader0 and content = "''1001:a'' @ [NL] @ ''1002:b'' @ [NL]"
      and p = ?p and s = 1500]
  have a: "files world_done ?idx = Some (''1001:https://'' @ ?p @ [NL]) \<and>
      msgHandler uploader0 world_done job0 =
        (Inr (), world_done\<lparr>trace := trace world_done @ [EvReadFile ?pth, EvAck (Data job0)]\<rparr>)"
    using inst [where w = world_job, THEN conjunct1]
    by (simp add: wj world_done_def [symmetric])
  have b: "files world_retried ?idx = Some (''1001:https://'' @ ?p @ [NL] @ ''1001:https://'' @ ?p @ [NL])"
    using inst [where w = "world_job\<lparr>faults := {FRemove ?pth}\<rparr>", THEN conjunct2, THEN conjunct1]
    by (simp add: wj world_retried_def [symmetric])
  have c: "fst (GetArchivedFileBySeq storer0 world_retried ''100/100'' 1500) =
     fst (GetArchivedFileBySeq storer0 world_done ''100/100'' 1500)"
    using inst [where w = world_job, THEN conjunct2, THEN conjunct2]
    by (simp add: wj)
  show ?thesis
    using a b c by (simp add: dj)
qed

section \<open>Appending to a segment\<close>

lemma log_event_fields [simp]:
  "stream (log_event ev w) = stream w" "outage (log_event ev w) = outage w"
  "TEST_MODE (log_event ev w) = TEST_MODE w" "objects (log_event ev w) = objects w"
  "url_escape (log_event ev w) = url_escape w"
  by (simp_all add: log_event_def)

lemma publish_loop_accepts:
  "outage w = Some n \<Longrightarrow>
   publish_loop subject data w =
     Some (w\<lparr>trace := trace w @ replicate (Suc n) (EvPublish subject data data),
             outage := Some 0,
             stream := stream w @ [(subject, data, data)]\<rparr>)"
proof (induction n arbitrary: w)
  case 0
  then show ?case
    by (subst publish_loop.simps) (simp add: js_Publish_def log_event_def Let_def)
next
  case (Suc n)
  let ?w1 = "w\<lparr>trace := trace w @ [EvPublish subject data data], outage := Some n\<rparr>"
  have step: "publish_loop subject data w = publish_loop subject data ?w1"
    using Suc.prems
    by (subst publish_loop.simps) (simp add: js_Publish_def log_event_def Let_def)
  have "outage ?w1 = Some n" by simp
  from Suc.IH [OF this] show ?case
    by (simp add: step replicate_append_same)
qed

lemma publish_loop_returns:
  assumes ret: "publish_loop subject data w = Some w'"
  shows "outage w \<noteq> None"
proof (rule publish_loop.raw_induct [where P = "\<lambda>s d v y. outage v \<noteq> None", OF _ ret])
  fix loop s d v y
  assume ih: "\<And>d w b y. loop d w b = Some y \<Longrightarrow> outage b \<noteq> None"
    and eq: "(let r = js_Publish v s d d
              in if fst r then Some (snd r) else loop s d (snd r)) = Some y"
  show "outage v \<noteq> None"
  proof
    assume none: "outage v = None"
    then have "loop s d (snd (js_Publish v s d d)) = Some y"
      using eq by (simp add: js_Publish_def Let_def)
    from ih [OF this] show False
      using none by (simp add: js_Publish_def log_event_def Let_def)
  qed
qed

lemma publish_loop_refused: "outage w = None \<Longrightarrow> publish_loop subject data w = None"
  using publish_loop_returns [of subject data w] by (cases "publish_loop subject data w") auto

lemma processFilename_ok:
  "FMkdir (path_Join [datastore sr, dstPath]) \<notin> faults w \<Longrightarrow>
   processFilename sr w dstPath =
     (Inr (path_Join [path_Join [datastore sr, dstPath], DefaultCurrentDB]),
      log_event (EvMkdirAll (path_Join [datastore sr, dstPath])) w)"
  by (simp add: processFilename_def os_MkdirAll_def Let_def)

section \<open>The last element of a joined path\<close>

lemma split_on_not_Nil: "split_on c xs \<noteq> []"
  by (induction xs) (auto split: list.splits)

lemma split_on_simple: "c \<notin> set xs \<Longrightarrow> split_on c xs = [xs]"
  by (induction xs) auto

lemma split_on_append_sep: "split_on c (xs @ c # ys) = split_on c xs @ split_on c ys"
proof (induction xs)
  case Nil
  show ?case by simp
next
  case (Cons x xs)
  then show ?case
    using split_on_not_Nil [of c xs] by (cases "split_on c xs") auto
qed

lemma join_with_snoc:
  "join_with sep (out @ [x]) = (if out = [] then x else join_with sep out @ sep @ x)"
  by (induction sep out rule: join_with.induct) auto

lemma path_Clean_last_element:
  assumes "simple_name n" and "SLASH \<notin> set n" and that: "d = [] \<or> last d = SLASH"
  shows "\<exists>pre. path_Clean (d @ n) = pre @ n \<and> (pre = [] \<or> last pre = SLASH)"
proof -
  have comps: "\<exists>cs. split_on SLASH (d @ n) = cs @ [n]"
  proof (cases "d = []")
    case True
    then show ?thesis using assms(2) by (simp add: split_on_simple)
  next
    case False
    with that obtain b where b: "d = b @ [SLASH]" by (metis append_butlast_last_id)
    have "split_on SLASH (d @ n) = split_on SLASH b @ [n]"
      using assms(2) unfolding b by (simp add: split_on_append_sep split_on_simple)
    then show ?thesis by blast
  qed
  then obtain cs where cs: "split_on SLASH (d @ n) = cs @ [n]" by blast
  let ?rooted = "hd (d @ n) = SLASH"
  let ?out = "foldl (clean_step ?rooted) [] cs"
  have out: "foldl (clean_step ?rooted) [] (split_on SLASH (d @ n)) = ?out @ [n]"
    using assms(1) by (simp add: cs clean_step_def simple_name_def)
  let ?pre = "(if ?rooted then ''/'' else []) @ (if ?out = [] then [] else join_with ''/'' ?out @ ''/'')"
  have ne: "d @ n \<noteq> []" using assms(1) by (simp add: simple_name_def)
  have "path_Clean (d @ n) = ?pre @ n"
    using ne assms(1) unfolding path_Clean_def Let_def out
    by (simp add: join_with_snoc simple_name_def)
  moreover have "?pre = [] \<or> last ?pre = SLASH" by simp
  ultimately show ?thesis by blast
qed

lemma path_Join_last_element:
  assumes "simple_name n"
  shows "\<exists>pre. path_Join [d, n] = pre @ n \<and> (pre = [] \<or> last pre = SLASH)"
proof -
  have sl: "SLASH \<notin> set n" and ne: "n \<noteq> []" using assms by (simp_all add: simple_name_def)
  have "foldl join_step [] [d, n] = (if d = [] then [] else d @ ''/'') @ n"
    using ne by (simp add: join_step_def)
  then have "path_Join [d, n] = path_Clean ((if d = [] then [] else d @ ''/'') @ n)"
    using ne by (simp add: path_Join_def)
  moreover have "(if d = [] then [] else d @ ''/'') = [] \<or> last (if d = [] then [] else d @ ''/'') = SLASH"
    by simp
  ultimately show ?thesis
    using path_Clean_last_element [OF assms sl, of "if d = [] then [] else d @ ''/''"] by auto
qed

lemma last_element_unique:
  assumes "pre1 @ n1 = pre2 @ n2" and "SLASH \<notin> set n1" and "SLASH \<notin> set n2"
    and "pre1 = [] \<or> last pre1 = SLASH" and "pre2 = [] \<or> last pre2 = SLASH"
  shows "n1 = n2"
proof -
  have tw: "takeWhile (\<lambda>c. c \<noteq> SLASH) (rev (pre @ n)) = rev n"
    if "SLASH \<notin> set n" "pre = [] \<or> last pre = SLASH" for pre n :: string
  proof (cases "pre = []")
    case True
    then show ?thesis using that(1) by (auto simp add: takeWhile_eq_all_conv)
  next
    case False
    with that(2) obtain b where b: "pre = b @ [SLASH]" by (metis append_butlast_last_id)
    have "SLASH \<notin> set (rev n)" using that(1) by simp
    then show ?thesis unfolding b by (simp add: takeWhile_sep)
  qed
  have "rev n1 = takeWhile (\<lambda>c. c \<noteq> SLASH) (rev (pre1 @ n1))" using tw assms(2,4) by simp
  also have "\<dots> = takeWhile (\<lambda>c. c \<noteq> SLASH) (rev (pre2 @ n2))" using assms(1) by simp
  also have "\<dots> = rev n2" using tw assms(3,5) by simp
  finally show ?thesis by simp
qed

lemma archive_name_distinct:
  "path_Join [d, ''MSG_'' @ itoa n @ ''.db''] \<noteq> path_Join [d', DefaultCurrentDB]"
proof
  assume eq: "path_Join [d, ''MSG_'' @ itoa n @ ''.db''] = path_Join [d', DefaultCurrentDB]"
  have s1: "simple_name (''MSG_'' @ itoa n @ ''.db'')"
    using itoa_no_sep [of n] by (simp add: simple_name_def)
  have s2: "simple_name DefaultCurrentDB"
    by (simp add: simple_name_def DefaultCurrentDB_def)
  obtain pre1 where p1: "path_Join [d, ''MSG_'' @ itoa n @ ''.db''] = pre1 @ ''MSG_'' @ itoa n @ ''.db''"
      "pre1 = [] \<or> last pre1 = SLASH"
    using path_Join_last_element [OF s1, of d] by auto
  obtain pre2 where p2: "path_Join [d', DefaultCurrentDB] = pre2 @ DefaultCurrentDB"
      "pre2 = [] \<or> last pre2 = SLASH"
    using path_Join_last_element [OF s2, of d'] by auto
  have "''MSG_'' @ itoa n @ ''.db'' = DefaultCurrentDB"
    using last_element_unique [of pre1 "''MSG_'' @ itoa n @ ''.db''" pre2 DefaultCurrentDB]
      eq p1 p2 s1 s2 by (simp add: simple_name_def)
  then show False by (simp add: DefaultCurrentDB_def)
qed

section \<open>Rotation\<close>

lemma MsgStore_rotation_run:
  assumes dir: "dstDir = path_Join [datastore sr, dstPath]"
    and f: "dstFile = path_Join [dstDir, DefaultCurrentDB]"
    and ok: "FMkdir dstDir \<notin> faults w" "FOpen dstFile \<notin> faults w" "FStat dstFile \<notin> faults w"
      "FRead dstFile \<notin> faults w" "FRename dstFile \<notin> faults w" "FWrite dstFile \<notin> faults w"
    and mode: "TEST_MODE w = []"
    and gate: "\<not> counter sr < 100"
    and seg: "files w dstFile = Some (enc_line C p0 @ NL # rest)" "NL \<notin> set p0"
      "fileSize \<le> length (enc_line C p0 @ NL # rest)"
    and arch: "archiveName = path_Join [path_Dir dstFile, ''MSG_'' @ itoa (unat C) @ ''.db'']"
    and job: "job = itoa (unat C) @ '':'' @ archiveName"
    and subj: "subject = DefaultSubject (domain sr) (hostname sr)"
    and broker: "outage w = Some n"
  shows "\<exists>w'. MsgStore sr w dstPath seq rawData = Some (Inr dstFile, sr\<lparr>counter := 1\<rparr>, w') \<and>
           files w' = (files w)(archiveName \<mapsto> enc_line C p0 @ NL # rest,
                                dstFile \<mapsto> enc_line seq rawData @ [NL]) \<and>
           stream w' = stream w @ [(subject, job, job)] \<and>
           trace w' = trace w @ [EvMkdirAll dstDir, EvOpenFile dstFile, EvStat dstFile,
                                 EvOpen dstFile, EvRename dstFile archiveName] @
                      replicate (Suc n) (EvPublish subject job job) @
                      [EvOpenFile dstFile, EvWriteString dstFile (enc_line seq rawData @ [NL])]"
proof -
  have ne: "archiveName \<noteq> dstFile"
    unfolding arch f by (rule archive_name_distinct)
  have pf: "processFilename sr w dstPath = (Inr dstFile, log_event (EvMkdirAll dstDir) w)"
    using ok(1) unfolding dir f by (rule processFilename_ok)
  note first = getFirstSeqFromFile_segment [where C = C and p = p0 and rest = rest]
  note pub = publish_loop_accepts [where n = n]
  have af: "archiveFile (sr\<lparr>counter := 0\<rparr>) w0 dstFile =
              Some (Inr (),
                    w0\<lparr>trace := trace w0 @ [EvOpen dstFile, EvRename dstFile archiveName] @
                                   replicate (Suc n) (EvPublish subject job job),
                        files := (files w0)(dstFile := None, archiveName \<mapsto> enc_line C p0 @ NL # rest),
                        outage := Some 0,
                        stream := stream w0 @ [(subject, job, job)]\<rparr>)"
    if "files w0 = files w" "faults w0 = faults w" "TEST_MODE w0 = []" "outage w0 = Some n" for w0
    using that seg(1,2) ok(2,4,5) unfolding job subj arch
    by (simp add: archiveFile_def first os_Rename_def triggerUploader_def pub log_event_def Let_def)
  have loop2: "MsgStore_loop (sr\<lparr>counter := 0\<rparr>) w0 dstFile =
                 Some (Inr (), sr\<lparr>counter := 1\<rparr>,
                       w0\<lparr>trace := trace w0 @ [EvOpenFile dstFile],
                           files := (files w0)(dstFile \<mapsto> [])\<rparr>)"
    if "files w0 dstFile = None" "faults w0 = faults w" for w0
    using that ok(2)
    by (subst MsgStore_loop.simps) (simp add: os_OpenFile_def log_event_def Let_def)
  have loop1: "\<exists>w'. MsgStore_loop sr (log_event (EvMkdirAll dstDir) w) dstFile =
                 Some (Inr (), sr\<lparr>counter := 1\<rparr>, w') \<and>
               files w' = (files w)(archiveName \<mapsto> enc_line C p0 @ NL # rest, dstFile \<mapsto> []) \<and>
               faults w' = faults w \<and>
               stream w' = stream w @ [(subject, job, job)] \<and>
               trace w' = trace w @ [EvMkdirAll dstDir, EvOpenFile dstFile, EvStat dstFile,
                                 EvOpen dstFile, EvRename dstFile archiveName] @
                      replicate (Suc n) (EvPublish subject job job) @ [EvOpenFile dstFile]"
    using gate ok(2,3) seg(1,3) mode broker ne
    by (subst MsgStore_loop.simps)
      (simp add: os_OpenFile_def file_Stat_def af loop2 log_event_def Let_def fun_upd_twist)
  then obtain w1 where w1: "MsgStore_loop sr (log_event (EvMkdirAll dstDir) w) dstFile =
                 Some (Inr (), sr\<lparr>counter := 1\<rparr>, w1)"
      "files w1 = (files w)(archiveName \<mapsto> enc_line C p0 @ NL # rest, dstFile \<mapsto> [])"
      "faults w1 = faults w"
      "stream w1 = stream w @ [(subject, job, job)]"
      "trace w1 = trace w @ [EvMkdirAll dstDir, EvOpenFile dstFile, EvStat dstFile,
                                 EvOpen dstFile, EvRename dstFile archiveName] @
                      replicate (Suc n) (EvPublish subject job job) @ [EvOpenFile dstFile]"
    by blast
  show ?thesis
    using ok(6) w1(2-)
    by (simp add: MsgStore_def pf w1(1) file_WriteString_def Let_def enc_line_def)
qed

section \<open>Calls that do not rotate\<close>

lemma os_OpenFile_ok:
  "FOpen f \<notin> faults w \<Longrightarrow>
   os_OpenFile w f = (Inr (), (log_event (EvOpenFile f) w)\<lparr>files := (files w)(f \<mapsto> contents w f)\<rparr>)"
  by (auto simp add: os_OpenFile_def contents_def log_event_def Let_def fun_upd_idem split: option.splits)

lemma MsgStore_gate_closed:
  assumes dir: "dstDir = path_Join [datastore sr, dstPath]"
    and f: "dstFile = path_Join [dstDir, DefaultCurrentDB]"
    and ok: "FMkdir dstDir \<notin> faults w" "FOpen dstFile \<notin> faults w"
    and gate: "counter sr < 100"
    and line: "line = enc_line seq rawData @ [NL]"
  shows "\<exists>w'. MsgStore sr w dstPath seq rawData =
                Some (if FWrite dstFile \<in> faults w then Inl ErrIO else Inr dstFile,
                      sr\<lparr>counter := counter sr + 1\<rparr>, w') \<and>
              trace w' = trace w @ [EvMkdirAll dstDir, EvOpenFile dstFile, EvWriteString dstFile line] \<and>
              stream w' = stream w \<and> faults w' = faults w \<and>
              files w' = (files w)(dstFile \<mapsto> contents w dstFile @
                                     (if FWrite dstFile \<in> faults w then [] else line))"
proof -
  have pf: "processFilename sr w dstPath = (Inr dstFile, log_event (EvMkdirAll dstDir) w)"
    using ok(1) unfolding dir f by (rule processFilename_ok)
  have loop: "MsgStore_loop sr (log_event (EvMkdirAll dstDir) w) dstFile =
      Some (Inr (), sr\<lparr>counter := counter sr + 1\<rparr>,
            (log_event (EvOpenFile dstFile) (log_event (EvMkdirAll dstDir) w))
              \<lparr>files := (files w)(dstFile \<mapsto> contents w dstFile)\<rparr>)"
    using gate ok(2)
    by (subst MsgStore_loop.simps) (simp add: os_OpenFile_ok contents_def)
  show ?thesis
    unfolding line
    by (simp add: MsgStore_def pf loop file_WriteString_def Let_def enc_line_def)
qed

lemma MsgStore_gate_open_small:
  assumes dir: "dstDir = path_Join [datastore sr, dstPath]"
    and f: "dstFile = path_Join [dstDir, DefaultCurrentDB]"
    and ok: "FMkdir dstDir \<notin> faults w" "FOpen dstFile \<notin> faults w" "FStat dstFile \<notin> faults w"
    and gate: "\<not> counter sr < 100"
    and small: "length (contents w dstFile) < fileSize"
    and line: "line = enc_line seq rawData @ [NL]"
  shows "\<exists>w'. MsgStore sr w dstPath seq rawData =
                Some (if FWrite dstFile \<in> faults w then Inl ErrIO else Inr dstFile,
                      sr\<lparr>counter := 0\<rparr>, w') \<and>
              trace w' = trace w @ [EvMkdirAll dstDir, EvOpenFile dstFile, EvStat dstFile,
                                    EvWriteString dstFile line] \<and>
              stream w' = stream w \<and> faults w' = faults w \<and>
              files w' = (files w)(dstFile \<mapsto> contents w dstFile @
                                     (if FWrite dstFile \<in> faults w then [] else line))"
proof -
  have pf: "processFilename sr w dstPath = (Inr dstFile, log_event (EvMkdirAll dstDir) w)"
    using ok(1) unfolding dir f by (rule processFilename_ok)
  have loop: "MsgStore_loop sr (log_event (EvMkdirAll dstDir) w) dstFile =
      Some (Inr (), sr\<lparr>counter := 0\<rparr>,
            log_event (EvStat dstFile)
              ((log_event (EvOpenFile dstFile) (log_event (EvMkdirAll dstDir) w))
                 \<lparr>files := (files w)(dstFile \<mapsto> contents w dstFile)\<rparr>))"
    using gate ok(2,3) small
    by (subst MsgStore_loop.simps) (simp add: os_OpenFile_ok contents_def file_Stat_def Let_def)
  show ?thesis
    unfolding line
    by (simp add: MsgStore_def pf loop file_WriteString_def Let_def enc_line_def)
qed

lemma MsgStore_append:
  assumes dir: "dstDir = path_Join [datastore sr, dstPath]"
    and f: "dstFile = path_Join [dstDir, DefaultCurrentDB]"
    and ok: "FMkdir dstDir \<notin> faults w" "FOpen dstFile \<notin> faults w" "FStat dstFile \<notin> faults w"
      "FWrite dstFile \<notin> faults w"
    and norot: "counter sr < 100 \<or> length (contents w dstFile) < fileSize"
  shows "\<exists>sr' w'. MsgStore sr w dstPath seq rawData = Some (Inr dstFile, sr', w') \<and>
              sr' = sr\<lparr>counter := (if counter sr < 100 then counter sr + 1 else 0)\<rparr> \<and>
              faults w' = faults w \<and>
              files w' = (files w)(dstFile \<mapsto> contents w dstFile @ enc_line seq rawData @ [NL])"
proof (cases "counter sr < 100")
  case True
  then show ?thesis
    using MsgStore_gate_closed [OF dir f ok(1,2) True refl, of seq rawData] ok(4) by auto
next
  case False
  with norot have "length (contents w dstFile) < fileSize" by simp
  then show ?thesis
    using MsgStore_gate_open_small [OF dir f ok(1,2,3) False _ refl, of seq rawData] ok(4) False
    by auto
qed

lemma counter_steps: "c < (98 :: 64 word) \<Longrightarrow> c < 100 \<and> c + 1 < 100 \<and> c + 1 + 1 < 100"
  by unat_arith

section \<open>Calls that check the size\<close>

lemma publish_loop_trace:
  assumes "publish_loop subject data w = Some w'"
  shows "\<exists>t. trace w' = trace w @ t"
proof -
  from assms obtain n where "outage w = Some n"
    using publish_loop_returns by blast
  from publish_loop_accepts [OF this, of subject data] assms show ?thesis by auto
qed

lemma getFirstSeqFromFile_trace:
  "trace (snd (getFirstSeqFromFile w f)) = trace w @ [EvOpen f]"
  by (simp add: getFirstSeqFromFile_cases)

lemma updateIndex_trace: "\<exists>t. trace (snd (updateIndex w f a sq)) = trace w @ t"
  by (simp add: updateIndex_def os_OpenFile_def file_WriteString_def log_event_def Let_def
      split: option.splits)

lemma archiveFile_trace:
  assumes "archiveFile sr w f = Some (r, w')"
  shows "\<exists>t. trace w' = trace w @ t"
proof (cases "fst (getFirstSeqFromFile w f)")
  case (Inl e)
  then show ?thesis
    using assms getFirstSeqFromFile_trace [of w f]
    by (cases "getFirstSeqFromFile w f") (auto simp: archiveFile_def)
next
  case (Inr sq)
  obtain w1 where w1: "getFirstSeqFromFile w f = (Inr sq, w1)" "trace w1 = trace w @ [EvOpen f]"
    using Inr getFirstSeqFromFile_trace [of w f] by (cases "getFirstSeqFromFile w f") auto
  show ?thesis
  proof (cases "TEST_MODE w1 \<noteq> []")
    case True
    let ?a = "path_Join [path_Dir (ReplaceAll f (path_Join [datastore sr])
                (path_Join [datastore sr, ''archive''])), ''MSG_'' @ sq @ ''.db'']"
    from updateIndex_trace [of "snd (os_Rename (snd (os_MkdirAll w1 (path_Dir ?a))) f ?a)" f ?a sq]
    obtain t where t: "trace (snd (updateIndex (snd (os_Rename (snd (os_MkdirAll w1 (path_Dir ?a))) f ?a)) f ?a sq)) =
        trace (snd (os_Rename (snd (os_MkdirAll w1 (path_Dir ?a))) f ?a)) @ t" by blast
    show ?thesis
      using assms True w1 t
      by (auto simp: archiveFile_def os_MkdirAll_def os_Rename_def log_event_def Let_def
          split: if_splits option.splits prod.splits sum.splits)
  next
    case False
    let ?a = "path_Join [path_Dir f, ''MSG_'' @ sq @ ''.db'']"
    show ?thesis
    proof (cases "fst (os_Rename w1 f ?a)")
      case (Inl e)
      then show ?thesis
        using assms False w1
        by (auto simp: archiveFile_def os_Rename_def log_event_def Let_def
            split: if_splits option.splits)
    next
      case (Inr u)
      then obtain w2 where w2: "os_Rename w1 f ?a = (Inr (), w2)" "trace w2 = trace w1 @ [EvRename f ?a]"
        by (auto simp: os_Rename_def log_event_def Let_def split: if_splits option.splits)
      from assms False w1 w2 obtain w3 where
        "publish_loop (DefaultSubject (domain sr) (hostname sr)) (sq @ '':'' @ ?a) w2 = Some w3" "w' = w3"
        by (auto simp: archiveFile_def triggerUploader_def Let_def split: option.splits)
      then show ?thesis
        using publish_loop_trace w1(2) w2(2) by fastforce
    qed
  qed
qed

lemma MsgStore_loop_checks:
  assumes gate: "\<not> counter sr < 100" and ok: "FOpen f \<notin> faults w"
    and ret: "MsgStore_loop sr w f = Some (r, sr', w')"
  shows "(\<exists>t. trace w' = trace w @ [EvOpenFile f, EvStat f] @ t) \<and>
         (counter sr' = 0 \<or> counter sr' = 1)"
proof -
  let ?w1 = "(log_event (EvOpenFile f) w)\<lparr>files := (files w)(f \<mapsto> contents w f)\<rparr>"
  let ?sr0 = "sr\<lparr>counter := 0\<rparr>"
  have "trace (snd (file_Stat ?w1 f)) = trace w @ [EvOpenFile f, EvStat f]"
    by (simp add: file_Stat_def log_event_def Let_def split: option.splits)
  then obtain rs w2 where st: "file_Stat ?w1 f = (rs, w2)" "trace w2 = trace w @ [EvOpenFile f, EvStat f]"
    by (cases "file_Stat ?w1 f") auto
  have unfold: "MsgStore_loop sr w f =
      (case rs of
         Inl e \<Rightarrow> Some (Inl e, ?sr0, w2)
       | Inr sz \<Rightarrow>
           if fileSize \<le> sz then
             (case archiveFile ?sr0 w2 f of
                None \<Rightarrow> None
              | Some (Inl e, w3) \<Rightarrow> Some (Inl e, ?sr0, w3)
              | Some (Inr _, w3) \<Rightarrow> MsgStore_loop ?sr0 w3 f)
           else Some (Inr (), ?sr0, w2))"
    using gate ok by (subst MsgStore_loop.simps) (simp add: os_OpenFile_ok st(1))
  show ?thesis
  proof (cases rs)
    case (Inl e)
    then show ?thesis using ret st(2) by (auto simp add: unfold)
  next
    case (Inr sz)
    show ?thesis
    proof (cases "fileSize \<le> sz")
      case False
      then show ?thesis using ret st(2) Inr by (auto simp add: unfold)
    next
      case True
      then obtain ra w3 where af: "archiveFile ?sr0 w2 f = Some (ra, w3)"
        using ret Inr by (cases "archiveFile ?sr0 w2 f") (auto simp: unfold)
      then obtain t where t: "trace w3 = trace w2 @ t"
        using archiveFile_trace by blast
      show ?thesis
      proof (cases ra)
        case (Inl e)
        then show ?thesis using ret st(2) Inr True af t by (auto simp add: unfold)
      next
        case (Inr u)
        then have again: "MsgStore_loop ?sr0 w3 f = Some (r, sr', w')"
          using ret \<open>rs = Inr sz\<close> True af by (simp add: unfold)
        have "trace w' = trace w3 @ [EvOpenFile f] \<and> (counter sr' = 0 \<or> counter sr' = 1)"
          using again
          by (subst (asm) MsgStore_loop.simps)
            (auto simp: os_OpenFile_def log_event_def Let_def split: if_splits option.splits)
        then show ?thesis using st(2) t by simp
      qed
    qed
  qed
qed

lemma MsgStore_checks:
  assumes dir: "dstDir = path_Join [datastore sr, dstPath]"
    and f: "dstFile = path_Join [dstDir, DefaultCurrentDB]"
    and ok: "FMkdir dstDir \<notin> faults w" "FOpen dstFile \<notin> faults w"
    and gate: "\<not> counter sr < 100"
    and ret: "MsgStore sr w dstPath seq rawData = Some (r, sr', w')"
  shows "(\<exists>t. trace w' = trace w @ [EvMkdirAll dstDir, EvOpenFile dstFile, EvStat dstFile] @ t) \<and>
         (counter sr' = 0 \<or> counter sr' = 1)"
proof -
  have pf: "processFilename sr w dstPath = (Inr dstFile, log_event (EvMkdirAll dstDir) w)"
    using ok(1) unfolding dir f by (rule processFilename_ok)
  have open_ok: "FOpen dstFile \<notin> faults (log_event (EvMkdirAll dstDir) w)" using ok(2) by simp
  obtain r1 sr1 w1 where loop: "MsgStore_loop sr (log_event (EvMkdirAll dstDir) w) dstFile = Some (r1, sr1, w1)"
    using ret by (cases "MsgStore_loop sr (log_event (EvMkdirAll dstDir) w) dstFile")
      (auto simp: MsgStore_def pf)
  note chk = MsgStore_loop_checks [OF gate open_ok loop]
  show ?thesis
  proof (cases r1)
    case (Inl e)
    then have "sr' = sr1" "w' = w1" using ret by (simp_all add: MsgStore_def pf loop)
    then show ?thesis using chk by simp
  next
    case (Inr u)
    let ?data = "itoa (unat seq) @ '':'' @ rawData @ [NL]"
    have "(case file_WriteString w1 dstFile ?data of
             (Inl e, w3) \<Rightarrow> Some (Inl e, sr1, w3)
           | (Inr _, w3) \<Rightarrow> Some (Inr dstFile, sr1, w3)) = Some (r, sr', w')"
      using ret Inr by (simp add: MsgStore_def pf loop Let_def)
    then have "sr' = sr1" "trace w' = trace w1 @ [EvWriteString dstFile ?data]"
      by (auto simp: file_WriteString_def log_event_def Let_def split: if_splits)
    then show ?thesis using chk by auto
  qed
qed

section \<open>The claims about MsgStore\<close>

text \<open>
  Claim C3. On a call of \<open>MsgStore\<close> at which the counter has reached the check
  interval and the current segment, whose first record has the sequence \<open>C\<close>, holds at
  least \<open>fileSize\<close> bytes, the segment is renamed to \<open>MSG_C.db\<close> in its directory, one
  job is published whose payload \<open>C:archive-path\<close> is also its message id, and the new
  record is written to a fresh file at the path of the current segment. The call
  returns that path; the trace shows one rename and, with a broker that accepts at
  once (\<open>n = 0\<close>), one publish; the stream of the broker gains exactly one message.
\<close>

theorem MsgStore_rotation:
  assumes dir: "dstDir = path_Join [datastore sr, dstPath]"
    and f: "dstFile = path_Join [dstDir, DefaultCurrentDB]"
    and ok: "FMkdir dstDir \<notin> faults w" "FOpen dstFile \<notin> faults w" "FStat dstFile \<notin> faults w"
      "FRead dstFile \<notin> faults w" "FRename dstFile \<notin> faults w" "FWrite dstFile \<notin> faults w"
    and mode: "TEST_MODE w = []"
    and gate: "\<not> counter sr < 100"
    and seg: "files w dstFile = Some (enc_line C p0 @ NL # rest)" "NL \<notin> set p0"
      "fileSize \<le> length (enc_line C p0 @ NL # rest)"
    and arch: "archiveName = path_Join [path_Dir dstFile, ''MSG_'' @ itoa (unat C) @ ''.db'']"
    and job: "job = itoa (unat C) @ '':'' @ archiveName"
    and subj: "subject = DefaultSubject (domain sr) (hostname sr)"
    and broker: "outage w = Some n"
  shows "\<exists>w'. MsgStore sr w dstPath seq rawData = Some (Inr dstFile, sr\<lparr>counter := 1\<rparr>, w') \<and>
           files w' = (files w)(archiveName \<mapsto> enc_line C p0 @ NL # rest,
                                dstFile \<mapsto> enc_line seq rawData @ [NL]) \<and>
           stream w' = stream w @ [(subject, job, job)] \<and>
           trace w' = trace w @ [EvMkdirAll dstDir, EvOpenFile dstFile, EvStat dstFile,
                                 EvOpen dstFile, EvRename dstFile archiveName] @
                      replicate (Suc n) (EvPublish subject job job) @
                      [EvOpenFile dstFile, EvWriteString dstFile (enc_line seq rawData @ [NL])]"
  using assms by (rule MsgStore_rotation_run)

lemma current_due: "path_Join [path_Join [datastore storer_due, ''100/100''], DefaultCurrentDB] =
    ''datastore/100/100/current.db''"
  by (simp add: storer_due_def storer0_def path_defs)

lemma dir_due: "path_Join [datastore storer_due, ''100/100''] = ''datastore/100/100''"
  by (simp add: storer_due_def storer0_def path_defs)

lemma archive_5000:
  "path_Join [path_Dir ''datastore/100/100/current.db'', ''MSG_'' @ itoa (unat (5000 :: 64 word)) @ ''.db''] =
     ''datastore/100/100/MSG_5000.db''"
  by (simp add: path_defs itoa_examples)

theorem MsgStore_rotation_witness:
  "\<exists>w'. MsgStore storer_due world_big ''100/100'' 5001 ''next'' =
           Some (Inr ''datastore/100/100/current.db'', storer_due\<lparr>counter := 1\<rparr>, w') \<and>
         files w' = [''datastore/100/100/MSG_5000.db'' \<mapsto>
                       ''5000:hello'' @ [NL] @ replicate 1048576 (CHR ''x''),
                     ''datastore/100/100/current.db'' \<mapsto> ''5001:next'' @ [NL]] \<and>
         stream w' = [(''onglai-msg.archive.bucket.job.host1'',
                       ''5000:datastore/100/100/MSG_5000.db'',
                       ''5000:datastore/100/100/MSG_5000.db'')] \<and>
         trace w' = [EvMkdirAll ''datastore/100/100'',
                     EvOpenFile ''datastore/100/100/current.db'',
                     EvStat ''datastore/100/100/current.db'',
                     EvOpen ''datastore/100/100/current.db'',
                     EvRename ''datastore/100/100/current.db'' ''datastore/100/100/MSG_5000.db'',
                     EvPublish ''onglai-msg.archive.bucket.job.host1''
                       ''5000:datastore/100/100/MSG_5000.db'' ''5000:datastore/100/100/MSG_5000.db'',
                     EvOpenFile ''datastore/100/100/current.db'',
                     EvWriteString ''datastore/100/100/current.db'' (''5001:next'' @ [NL])]"
proof -
  let ?cur = "''datastore/100/100/current.db''"
  have ok: "FMkdir ''datastore/100/100'' \<notin> faults world_big" "FOpen ?cur \<notin> faults world_big"
    "FStat ?cur \<notin> faults world_big" "FRead ?cur \<notin> faults world_big"
    "FRename ?cur \<notin> faults world_big" "FWrite ?cur \<notin> faults world_big"
    "TEST_MODE world_big = []" "\<not> counter storer_due < 100"
    by (simp_all add: world_big_def world0_def storer_due_def)
  have seg: "files world_big ?cur = Some (enc_line 5000 ''hello'' @ NL # replicate 1048576 (CHR ''x''))"
    "NL \<notin> set ''hello''"
    "fileSize \<le> length (enc_line 5000 ''hello'' @ NL # replicate 1048576 (CHR ''x''))"
    by (simp_all add: world_big_def enc_line_def itoa_examples fileSize_def)
  have broker: "outage world_big = Some 0"
    by (simp add: world_big_def world0_def)
  have names: "itoa 5000 = ''5000''" "itoa 5001 = ''5001''"
    "DefaultSubject (domain storer_due) (hostname storer_due) = ''onglai-msg.archive.bucket.job.host1''"
    "files world_big = [?cur \<mapsto> ''5000:hello'' @ [NL] @ replicate 1048576 (CHR ''x'')]"
    "stream world_big = []" "trace world_big = []"
    by (simp_all add: itoa.simps digit_char_def DefaultSubject_def storer_due_def storer0_def
        DefaultDomain_def world_big_def world0_def)
  from MsgStore_rotation [OF dir_due [symmetric] current_due [symmetric, unfolded dir_due] ok(1-8)
        seg archive_5000 [symmetric] refl refl broker, of 5001 "''next''"]
  obtain w' where w': "MsgStore storer_due world_big ''100/100'' 5001 ''next'' =
      Some (Inr ?cur, storer_due\<lparr>counter := 1\<rparr>, w')"
    "files w' = (files world_big)(''datastore/100/100/MSG_5000.db'' \<mapsto>
                    enc_line 5000 ''hello'' @ NL # replicate 1048576 (CHR ''x''),
                  ?cur \<mapsto> enc_line 5001 ''next'' @ [NL])"
    "stream w' = stream world_big @
       [(DefaultSubject (domain storer_due) (hostname storer_due),
         itoa (unat (5000 :: 64 word)) @ '':'' @ ''datastore/100/100/MSG_5000.db'',
         itoa (unat (5000 :: 64 word)) @ '':'' @ ''datastore/100/100/MSG_5000.db'')]"
    "trace w' = trace world_big @
       [EvMkdirAll ''datastore/100/100'', EvOpenFile ?cur, EvStat ?cur, EvOpen ?cur,
        EvRename ?cur ''datastore/100/100/MSG_5000.db''] @
       replicate (Suc 0) (EvPublish (DefaultSubject (domain storer_due) (hostname storer_due))
         (itoa (unat (5000 :: 64 word)) @ '':'' @ ''datastore/100/100/MSG_5000.db'')
         (itoa (unat (5000 :: 64 word)) @ '':'' @ ''datastore/100/100/MSG_5000.db'')) @
       [EvOpenFile ?cur, EvWriteString ?cur (enc_line 5001 ''next'' @ [NL])]"
    by blast
  show ?thesis
    by (rule exI [of _ w']) (simp add: w' names enc_line_def fun_upd_twist)
qed

lemma lines_from_line:
  "NL \<notin> set l \<Longrightarrow> lines_from cur (l @ NL # rest) = (cur @ l) # lines_from [] rest"
  by (induction l arbitrary: cur) auto

lemma lines_from_append:
  "c0 \<noteq> [] \<Longrightarrow> last c0 = NL \<Longrightarrow> lines_from cur (c0 @ x) = lines_from cur c0 @ lines_from [] x"
proof (induction c0 arbitrary: cur)
  case Nil
  then show ?case by simp
next
  case (Cons a c0)
  show ?case
  proof (cases "c0 = []")
    case True
    then show ?thesis using Cons.prems by simp
  next
    case False
    then show ?thesis using Cons by simp
  qed
qed

lemma segment_lines_append:
  "c0 = [] \<or> last c0 = NL \<Longrightarrow> segment_lines (c0 @ x) = segment_lines c0 @ segment_lines x"
  by (cases "c0 = []") (auto simp: segment_lines_def lines_from_append)

lemma segment_lines_record:
  "NL \<notin> set p \<Longrightarrow> segment_lines (enc_line s p @ NL # rest) = enc_line s p # segment_lines rest"
  using lines_from_line [of "enc_line s p" "[]" rest] NL_notin_enc_line [of p s]
  by (simp add: segment_lines_def)

lemma decode_line_enc_line: "decode_line (enc_line s p) = Inr (s, p)"
  by (simp add: decode_line_def SplitN2_enc_line index_def ParseUint_itoa)

text \<open>
  Claim C6. Three records appended one after the other to a partition by \<open>MsgStore\<close>,
  none of the calls rotating (the counter stays below the check interval, or the
  segment stays below the size bound), leave the current segment with its earlier
  bytes followed by the three lines \<open>sa:pa\<close>, \<open>sb:pb\<close>, \<open>sc:pc\<close> in this order. When
  the payloads hold no newline, reading the segment back line by line gives these
  lines after the earlier ones (exactly these on a fresh segment), and splitting a
  line at its first colon gives back the sequence and the payload. The order of the
  sequence numbers plays no part, so it is not assumed.
\<close>

theorem MsgStore_appends_in_order:
  assumes dir: "dstDir = path_Join [datastore sr, dstPath]"
    and f: "dstFile = path_Join [dstDir, DefaultCurrentDB]"
    and ok: "FMkdir dstDir \<notin> faults w" "FOpen dstFile \<notin> faults w" "FStat dstFile \<notin> faults w"
      "FWrite dstFile \<notin> faults w"
    and c0: "c0 = contents w dstFile"
    and norot: "counter sr < 98 \<or>
                length (c0 @ enc_line sa pa @ [NL] @ enc_line sb pb @ [NL]) < fileSize"
    and payloads: "NL \<notin> set pa" "NL \<notin> set pb" "NL \<notin> set pc"
  shows "\<exists>sr1 w1 sr2 w2 sr3 w3.
           MsgStore sr w dstPath sa pa = Some (Inr dstFile, sr1, w1) \<and>
           MsgStore sr1 w1 dstPath sb pb = Some (Inr dstFile, sr2, w2) \<and>
           MsgStore sr2 w2 dstPath sc pc = Some (Inr dstFile, sr3, w3) \<and>
           files w3 dstFile =
             Some (c0 @ enc_line sa pa @ [NL] @ enc_line sb pb @ [NL] @ enc_line sc pc @ [NL]) \<and>
           ((c0 = [] \<or> last c0 = NL) \<longrightarrow>
              segment_lines (c0 @ enc_line sa pa @ [NL] @ enc_line sb pb @ [NL] @ enc_line sc pc @ [NL]) =
                segment_lines c0 @ [enc_line sa pa, enc_line sb pb, enc_line sc pc]) \<and>
           map decode_line [enc_line sa pa, enc_line sb pb, enc_line sc pc] =
             [Inr (sa, pa), Inr (sb, pb), Inr (sc, pc)]"
proof -
  let ?r1 = "enc_line sa pa @ [NL]" and ?r2 = "enc_line sb pb @ [NL]" and ?r3 = "enc_line sc pc @ [NL]"
  have n1: "counter sr < 100 \<or> length (contents w dstFile) < fileSize"
    using norot counter_steps [of "counter sr"] unfolding c0 by auto
  from MsgStore_append [OF dir f ok n1, of sa pa]
  obtain sr1 w1 where one: "MsgStore sr w dstPath sa pa = Some (Inr dstFile, sr1, w1)"
    "sr1 = sr\<lparr>counter := (if counter sr < 100 then counter sr + 1 else 0)\<rparr>"
    "faults w1 = faults w" "files w1 = (files w)(dstFile \<mapsto> c0 @ ?r1)"
    unfolding c0 by blast
  have dir1: "dstDir = path_Join [datastore sr1, dstPath]" using dir one(2) by simp
  have ok1: "FMkdir dstDir \<notin> faults w1" "FOpen dstFile \<notin> faults w1" "FStat dstFile \<notin> faults w1"
    "FWrite dstFile \<notin> faults w1" using ok one(3) by simp_all
  have c1: "contents w1 dstFile = c0 @ ?r1" using one(4) by (simp add: contents_def)
  have n2: "counter sr1 < 100 \<or> length (contents w1 dstFile) < fileSize"
    using norot counter_steps [of "counter sr"] one(2) c1 by auto
  from MsgStore_append [OF dir1 f ok1 n2, of sb pb]
  obtain sr2 w2 where two: "MsgStore sr1 w1 dstPath sb pb = Some (Inr dstFile, sr2, w2)"
    "sr2 = sr1\<lparr>counter := (if counter sr1 < 100 then counter sr1 + 1 else 0)\<rparr>"
    "faults w2 = faults w1" "files w2 = (files w1)(dstFile \<mapsto> (c0 @ ?r1) @ ?r2)"
    unfolding c1 by blast
  have dir2: "dstDir = path_Join [datastore sr2, dstPath]" using dir1 two(2) by simp
  have ok2: "FMkdir dstDir \<notin> faults w2" "FOpen dstFile \<notin> faults w2" "FStat dstFile \<notin> faults w2"
    "FWrite dstFile \<notin> faults w2" using ok1 two(3) by simp_all
  have c2: "contents w2 dstFile = (c0 @ ?r1) @ ?r2" using two(4) by (simp add: contents_def)
  have n3: "counter sr2 < 100 \<or> length (contents w2 dstFile) < fileSize"
    using norot counter_steps [of "counter sr"] one(2) two(2) c2 by auto
  from MsgStore_append [OF dir2 f ok2 n3, of sc pc]
  obtain sr3 w3 where three: "MsgStore sr2 w2 dstPath sc pc = Some (Inr dstFile, sr3, w3)"
    "files w3 = (files w2)(dstFile \<mapsto> ((c0 @ ?r1) @ ?r2) @ ?r3)"
    unfolding c2 by blast
  have final: "files w3 dstFile =
             Some (c0 @ enc_line sa pa @ [NL] @ enc_line sb pb @ [NL] @ enc_line sc pc @ [NL])"
    using three(2) by simp
  have lines: "segment_lines (?r1 @ ?r2 @ ?r3) = [enc_line sa pa, enc_line sb pb, enc_line sc pc]"
    using payloads segment_lines_record [of pa sa "?r2 @ ?r3"]
      segment_lines_record [of pb sb ?r3] segment_lines_record [of pc sc "[]"]
    by (simp add: segment_lines_def)
  have readback: "(c0 = [] \<or> last c0 = NL) \<longrightarrow>
              segment_lines (c0 @ enc_line sa pa @ [NL] @ enc_line sb pb @ [NL] @ enc_line sc pc @ [NL]) =
                segment_lines c0 @ [enc_line sa pa, enc_line sb pb, enc_line sc pc]"
    using segment_lines_append [of c0 "?r1 @ ?r2 @ ?r3"] lines by simp
  have dec: "map decode_line [enc_line sa pa, enc_line sb pb, enc_line sc pc] =
             [Inr (sa, pa), Inr (sb, pb), Inr (sc, pc)]"
    by (simp add: decode_line_enc_line)
  show ?thesis
    by (intro exI [of _ sr1] exI [of _ w1] exI [of _ sr2] exI [of _ w2] exI [of _ sr3]
        exI [of _ w3] conjI one(1) two(1) three(1) final readback dec)
qed

lemma itoa_small: "itoa (Suc 0) = ''1''" "itoa 2 = ''2''" "itoa 3 = ''3''"
  by (simp_all add: itoa.simps [of "Suc 0"] itoa.simps [of 2] itoa.simps [of 3] digit_char_def)

lemma dir0: "path_Join [datastore storer0, ''100/100''] = ''datastore/100/100''"
  by (simp add: storer0_def path_defs)

theorem MsgStore_appends_in_order_witness:
  "\<exists>sr1 w1 sr2 w2 sr3 w3.
     MsgStore storer0 world_fresh ''100/100'' 1 ''a'' = Some (Inr ''datastore/100/100/current.db'', sr1, w1) \<and>
     MsgStore sr1 w1 ''100/100'' 2 ''b:c'' = Some (Inr ''datastore/100/100/current.db'', sr2, w2) \<and>
     MsgStore sr2 w2 ''100/100'' 3 ''d'' = Some (Inr ''datastore/100/100/current.db'', sr3, w3) \<and>
     files w3 ''datastore/100/100/current.db'' = Some (''1:a'' @ [NL] @ ''2:b:c'' @ [NL] @ ''3:d'' @ [NL]) \<and>
     segment_lines (''1:a'' @ [NL] @ ''2:b:c'' @ [NL] @ ''3:d'' @ [NL]) = [''1:a'', ''2:b:c'', ''3:d''] \<and>
     map decode_line [''1:a'', ''2:b:c'', ''3:d''] = [Inr (1, ''a''), Inr (2, ''b:c''), Inr (3, ''d'')]"
proof -
  let ?cur = "''datastore/100/100/current.db''"
  have ok: "FMkdir ''datastore/100/100'' \<notin> faults world_fresh" "FOpen ?cur \<notin> faults world_fresh"
    "FStat ?cur \<notin> faults world_fresh" "FWrite ?cur \<notin> faults world_fresh"
    by (simp_all add: world_fresh_def world0_def)
  have c0: "[] = contents world_fresh ?cur"
    by (simp add: contents_def world_fresh_def)
  have norot: "counter storer0 < 98 \<or>
      length ([] @ enc_line 1 ''a'' @ [NL] @ enc_line 2 ''b:c'' @ [NL]) < fileSize"
    by (simp add: storer0_def)
  have enc: "enc_line 1 ''a'' = ''1:a''" "enc_line 2 ''b:c'' = ''2:b:c''" "enc_line 3 ''d'' = ''3:d''"
    by (simp_all add: enc_line_def itoa_small)
  have f0: "?cur = path_Join [''datastore/100/100'', DefaultCurrentDB]"
    using current0 by (simp add: dir0)
  show ?thesis
    using MsgStore_appends_in_order [where sr = storer0 and w = world_fresh and sa = 1
        and pa = "''a''" and sb = 2 and pb = "''b:c''" and sc = 3 and pc = "''d''",
        OF dir0 [symmetric] f0 ok c0 norot]
    by (simp add: enc segment_lines_def)
qed

text \<open>
  Claim C4. The counter that gates the size check is a field of the storer, one for
  all partitions. A call of \<open>MsgStore\<close> for any partition that finds the counter below
  100 adds one to it and makes three calls only (the directory, the open, the write):
  no size is looked at and nothing is rotated, whatever the size of the segment. A
  call that finds the counter at 100 or above looks at the size of the segment it was
  called for, and returns with the counter reset: at 0, or at 1 when it has rotated,
  the write to the fresh segment being counted. Without a rotation the call ends with
  the counter at 0.
\<close>

theorem MsgStore_shared_counter:
  assumes dir: "dstDir = path_Join [datastore sr, dstPath]"
    and f: "dstFile = path_Join [dstDir, DefaultCurrentDB]"
    and ok: "FMkdir dstDir \<notin> faults w" "FOpen dstFile \<notin> faults w"
    and line: "line = enc_line seq rawData @ [NL]"
  shows "(counter sr < 100 \<longrightarrow>
            (\<exists>w'. MsgStore sr w dstPath seq rawData =
                     Some (if FWrite dstFile \<in> faults w then Inl ErrIO else Inr dstFile,
                           sr\<lparr>counter := counter sr + 1\<rparr>, w') \<and>
                   trace w' = trace w @ [EvMkdirAll dstDir, EvOpenFile dstFile,
                                         EvWriteString dstFile line] \<and>
                   stream w' = stream w \<and> faults w' = faults w \<and>
                   files w' = (files w)(dstFile \<mapsto> contents w dstFile @
                                          (if FWrite dstFile \<in> faults w then [] else line)))) \<and>
         (\<not> counter sr < 100 \<longrightarrow> MsgStore sr w dstPath seq rawData = Some (r, sr', w') \<longrightarrow>
            (\<exists>t. trace w' = trace w @ [EvMkdirAll dstDir, EvOpenFile dstFile, EvStat dstFile] @ t) \<and>
            (counter sr' = 0 \<or> counter sr' = 1)) \<and>
         (\<not> counter sr < 100 \<longrightarrow> FStat dstFile \<notin> faults w \<longrightarrow>
          length (contents w dstFile) < fileSize \<longrightarrow>
            (\<exists>w'. MsgStore sr w dstPath seq rawData =
                     Some (if FWrite dstFile \<in> faults w then Inl ErrIO else Inr dstFile,
                           sr\<lparr>counter := 0\<rparr>, w') \<and>
                   trace w' = trace w @ [EvMkdirAll dstDir, EvOpenFile dstFile, EvStat dstFile,
                                         EvWriteString dstFile line] \<and>
                   stream w' = stream w \<and> faults w' = faults w \<and>
                   files w' = (files w)(dstFile \<mapsto> contents w dstFile @
                                          (if FWrite dstFile \<in> faults w then [] else line))))"
proof (intro conjI impI)
  assume "counter sr < 100"
  then show "\<exists>w'. MsgStore sr w dstPath seq rawData =
                     Some (if FWrite dstFile \<in> faults w then Inl ErrIO else Inr dstFile,
                           sr\<lparr>counter := counter sr + 1\<rparr>, w') \<and>
                   trace w' = trace w @ [EvMkdirAll dstDir, EvOpenFile dstFile,
                                         EvWriteString dstFile line] \<and>
                   stream w' = stream w \<and> faults w' = faults w \<and>
                   files w' = (files w)(dstFile \<mapsto> contents w dstFile @
                                          (if FWrite dstFile \<in> faults w then [] else line))"
    using dir f ok line by (intro MsgStore_gate_closed)
next
  assume "\<not> counter sr < 100" "MsgStore sr w dstPath seq rawData = Some (r, sr', w')"
  from MsgStore_checks [OF dir f ok this]
  show "\<exists>t. trace w' = trace w @ [EvMkdirAll dstDir, EvOpenFile dstFile, EvStat dstFile] @ t"
    and "counter sr' = 0 \<or> counter sr' = 1"
    by simp_all
next
  assume "\<not> counter sr < 100" "FStat dstFile \<notin> faults w" "length (contents w dstFile) < fileSize"
  then show "\<exists>w'. MsgStore sr w dstPath seq rawData =
                     Some (if FWrite dstFile \<in> faults w then Inl ErrIO else Inr dstFile,
                           sr\<lparr>counter := 0\<rparr>, w') \<and>
                   trace w' = trace w @ [EvMkdirAll dstDir, EvOpenFile dstFile, EvStat dstFile,
                                         EvWriteString dstFile line] \<and>
                   stream w' = stream w \<and> faults w' = faults w \<and>
                   files w' = (files w)(dstFile \<mapsto> contents w dstFile @
                                          (if FWrite dstFile \<in> faults w then [] else line))"
    using dir f ok line by (intro MsgStore_gate_open_small)
qed

theorem MsgStore_shared_counter_witness:
  "\<exists>w1 w2.
     fileSize \<le> length (contents world_big ''datastore/100/100/current.db'') \<and>
     MsgStore (storer0\<lparr>counter := 99\<rparr>) world_big ''100/100'' 5001 ''next'' =
       Some (Inr ''datastore/100/100/current.db'', storer0\<lparr>counter := 100\<rparr>, w1) \<and>
     trace w1 = [EvMkdirAll ''datastore/100/100'', EvOpenFile ''datastore/100/100/current.db'',
                 EvWriteString ''datastore/100/100/current.db'' (''5001:next'' @ [NL])] \<and>
     MsgStore (storer0\<lparr>counter := 100\<rparr>) w1 ''100/200'' 3 ''d'' =
       Some (Inr ''datastore/100/200/current.db'', storer0\<lparr>counter := 0\<rparr>, w2) \<and>
     trace w2 = trace w1 @
                [EvMkdirAll ''datastore/100/200'', EvOpenFile ''datastore/100/200/current.db'',
                 EvStat ''datastore/100/200/current.db'',
                 EvWriteString ''datastore/100/200/current.db'' (''3:d'' @ [NL])]"
proof -
  let ?s = "storer0\<lparr>counter := 99\<rparr>" and ?t = "storer0\<lparr>counter := 100\<rparr>"
  let ?dir = "''datastore/100/100''" and ?cur = "''datastore/100/100/current.db''"
  let ?dir2 = "''datastore/100/200''" and ?cur2 = "''datastore/100/200/current.db''"
  let ?l1 = "''5001:next'' @ [NL]" and ?l2 = "''3:d'' @ [NL]"
  have big: "fileSize \<le> length (contents world_big ?cur)"
    by (simp add: contents_def world_big_def fileSize_def)
  have d1: "?dir = path_Join [datastore ?s, ''100/100'']"
    by (simp add: storer0_def path_defs)
  have f1: "?cur = path_Join [?dir, DefaultCurrentDB]"
    by (simp add: path_defs)
  have ok1: "FMkdir ?dir \<notin> faults world_big" "FOpen ?cur \<notin> faults world_big"
    by (simp_all add: world_big_def world0_def)
  have l1: "?l1 = enc_line 5001 ''next'' @ [NL]"
    by (simp add: enc_line_def itoa.simps digit_char_def)
  have below: "counter ?s < 100"
    by simp
  from MsgStore_shared_counter [where sr = ?s and w = world_big and seq = 5001
      and rawData = "''next''", OF d1 f1 ok1 l1, THEN conjunct1, rule_format, OF below]
  obtain w1 where one:
    "MsgStore ?s world_big ''100/100'' 5001 ''next'' =
       Some (if FWrite ?cur \<in> faults world_big then Inl ErrIO else Inr ?cur,
             ?s\<lparr>counter := counter ?s + 1\<rparr>, w1)"
    "trace w1 = trace world_big @ [EvMkdirAll ?dir, EvOpenFile ?cur, EvWriteString ?cur ?l1]"
    "faults w1 = faults world_big"
    "files w1 = (files world_big)(?cur \<mapsto> contents world_big ?cur @
                   (if FWrite ?cur \<in> faults world_big then [] else ?l1))"
    by blast
  have r1: "MsgStore ?s world_big ''100/100'' 5001 ''next'' = Some (Inr ?cur, ?t, w1)"
    using one(1) by (simp add: world_big_def world0_def)
  have t1: "trace w1 = [EvMkdirAll ?dir, EvOpenFile ?cur, EvWriteString ?cur ?l1]"
    using one(2) by (simp add: world_big_def world0_def)
  have d2: "?dir2 = path_Join [datastore ?t, ''100/200'']"
    by (simp add: storer0_def path_defs)
  have f2: "?cur2 = path_Join [?dir2, DefaultCurrentDB]"
    by (simp add: path_defs)
  have ok2: "FMkdir ?dir2 \<notin> faults w1" "FOpen ?cur2 \<notin> faults w1"
    using one(3) by (simp_all add: world_big_def world0_def)
  have l2: "?l2 = enc_line 3 ''d'' @ [NL]"
    by (simp add: enc_line_def itoa_small)
  have reached: "\<not> counter ?t < 100"
    by simp
  have st: "FStat ?cur2 \<notin> faults w1"
    using one(3) by (simp add: world_big_def world0_def)
  have wr: "FWrite ?cur2 \<notin> faults w1"
    using one(3) by (simp add: world_big_def world0_def)
  have small: "length (contents w1 ?cur2) < fileSize"
    using one(4) by (simp add: contents_def world_big_def fileSize_def)
  from MsgStore_shared_counter [where sr = ?t and w = w1 and seq = 3
      and rawData = "''d''", OF d2 f2 ok2 l2, THEN conjunct2, THEN conjunct2, rule_format,
      OF reached st small]
  obtain w2 where two:
    "MsgStore ?t w1 ''100/200'' 3 ''d'' =
       Some (if FWrite ?cur2 \<in> faults w1 then Inl ErrIO else Inr ?cur2, ?t\<lparr>counter := 0\<rparr>, w2)"
    "trace w2 = trace w1 @ [EvMkdirAll ?dir2, EvOpenFile ?cur2, EvStat ?cur2,
                            EvWriteString ?cur2 ?l2]"
    by blast
  have r2: "MsgStore ?t w1 ''100/200'' 3 ''d'' = Some (Inr ?cur2, storer0\<lparr>counter := 0\<rparr>, w2)"
    using two(1) wr by simp
  show ?thesis
    by (intro exI [of _ w1] exI [of _ w2] conjI big r1 t1 r2 two(2))
qed

section \<open>The retry delay\<close>
























text \<open>
  From the 65th delivery on the shift gives 0, the delay is 0 and the result is the
  jitter alone, below a millisecond, or the base when the jitter is 0.
\<close>

lemma nakDelay_late_deliveries:
  "nakDelay \<lparr>AckWait = 30000000000\<rparr> (Some \<lparr>NumDelivered = 65\<rparr>) 5 = Inr 5"
  "nakDelay \<lparr>AckWait = 30000000000\<rparr> (Some \<lparr>NumDelivered = 65\<rparr>) 0 = Inr 7500000000"
  by (simp_all add: nakDelay_def wrap64_def quot_def Second_def Millisecond_def DefaultAckWait_def
      rand_Int63n_def Let_def)

section \<open>The consumer and its shutdown\<close>

















end
